theory Spec2Isabelle
  imports Main
begin

section \<open>The hot-reload supervisor of the Titan dev loop\<close>

text \<open>
  Two revisions of the supervisor are embedded: \<^verbatim>\<open>src/templates/titan/dev.js\<close>
  (names as in the source) and \<^verbatim>\<open>src/unnamed/part_002\<close> (names suffixed
  \<^verbatim>\<open>_p2\<close>).  Both keep the module-level variables \<^verbatim>\<open>serverProcess\<close> and
  \<^verbatim>\<open>isKilling\<close>; they become fields of one state record that every function
  takes and returns.

  An \<^verbatim>\<open>async\<close> function is run to its end in one go.  What it awaits from
  outside (how the operating system answers a kill, whether the Builder throws,
  which pid a spawn gets) is read from an environment record.  Every call of a
  collaborator that the outside can observe is appended to \<^verbatim>\<open>trace\<close>, in
  program order; the return of the awaited race in \<^verbatim>\<open>killServer\<close> is such an
  entry (\<^verbatim>\<open>RaceSettled\<close>), as is the return of an awaited delay (\<^verbatim>\<open>Sleep\<close>).
  \<^verbatim>\<open>Date.now()\<close> reads the field \<^verbatim>\<open>now\<close> (milliseconds, an
  integer); an awaited \<^verbatim>\<open>setTimeout\<close> advances it by exactly its delay.

  Events that arrive while a function is suspended, other than the one it is
  waiting for, are not interleaved; the parameter \<^verbatim>\<open>root\<close> (always
  \<^verbatim>\<open>process.cwd()\<close>) and the ANSI colour codes of the messages are left out.
\<close>

subsection \<open>Strings\<close>

text \<open>A JavaScript string is its list of UTF-16 code units.\<close>

type_synonym jstring = "nat list"

definition str :: "string \<Rightarrow> jstring" where
  "str s = map of_char s"

text \<open>\<^verbatim>\<open>s.includes(sub)\<close>\<close>

fun js_includes :: "jstring \<Rightarrow> jstring \<Rightarrow> bool" where
  "js_includes [] sub = (sub = [])"
| "js_includes (c # cs) sub = (take (length sub) (c # cs) = sub \<or> js_includes cs sub)"

text \<open>\<^verbatim>\<open>s.split("\n")\<close>\<close>

fun split_nl :: "jstring \<Rightarrow> jstring list" where
  "split_nl [] = [[]]"
| "split_nl (c # cs) =
     (if c = 10 then [] # split_nl cs
      else case split_nl cs of [] \<Rightarrow> [[c]] | l # ls \<Rightarrow> (c # l) # ls)"

text \<open>The code units that \<^verbatim>\<open>String.prototype.trim\<close> strips (WhiteSpace and LineTerminator).\<close>

definition isWhiteSpace :: "nat \<Rightarrow> bool" where
  "isWhiteSpace c \<longleftrightarrow>
     c \<in> {0x9, 0xA, 0xB, 0xC, 0xD, 0x20, 0xA0, 0x1680, 0x2028, 0x2029, 0x202F, 0x205F, 0x3000, 0xFEFF}
     \<or> (0x2000 \<le> c \<and> c \<le> 0x200A)"

definition trim :: "jstring \<Rightarrow> jstring" where
  "trim s = rev (dropWhile isWhiteSpace (rev (dropWhile isWhiteSpace s)))"

subsection \<open>Data\<close>

datatype os = Win32 | Posix

datatype signal = SIGTERM | SIGKILL

text \<open>The parts of a template literal: fixed text and the interpolated values.\<close>

datatype piece = Lit string | Str jstring | ExitCode "int option" | Count nat

text \<open>
  How the race in \<^verbatim>\<open>killServer\<close> between the \<^verbatim>\<open>close\<close> event and the kill
  timeout ends: the promise was resolved from the start (the exit code was set),
  the \<^verbatim>\<open>close\<close> event came after so many ms, or the timeout came first.
\<close>

datatype raceResult = AlreadyExited | CloseWon int | TimeoutWon

datatype effect =
    ConsoleLog "piece list"
  | ConsoleError "piece list"
  | StdoutWrite jstring
  | StderrWrite jstring
  | StartSpinner string
  | StopSpinner bool string
  | Taskkill nat
  | KillGroup nat
  | ChildKill nat signal
  | RaceSettled raceResult
  | Sleep int
  | Build string
  | Spawn nat

text \<open>
  A \<^verbatim>\<open>ChildProcess\<close> object together with the variables that the listeners
  registered on it have captured.  \<^verbatim>\<open>running\<close> is the operating system's view:
  true from the spawn until the \<^verbatim>\<open>close\<close> event.  \<^verbatim>\<open>isReady\<close>,
  \<^verbatim>\<open>stdoutBuffer\<close>, \<^verbatim>\<open>buildLogs\<close> and \<^verbatim>\<open>slowTimer\<close> (is the timeout still
  armed) exist in \<^verbatim>\<open>part_002\<close> only.
\<close>

record child =
  pid :: nat
  exitCode :: "int option"
  running :: bool
  startTime :: int
  retryCount :: nat
  isReady :: bool
  stdoutBuffer :: jstring
  buildLogs :: jstring
  slowTimer :: bool

text \<open>
  \<^verbatim>\<open>children\<close> is the store of all process objects created so far;
  \<^verbatim>\<open>serverProcess\<close> is \<^verbatim>\<open>null\<close> or a reference into it.
\<close>

record dev_state =
  serverProcess :: "nat option"
  isKilling :: bool
  isFirstBoot :: bool
  now :: int
  children :: "child list"
  trace :: "effect list"

text \<open>
  The outside world during one run of a handler: the platform; whether
  \<^verbatim>\<open>process.kill(-pid)\<close> throws; how the killed process answers (\<^verbatim>\<open>Some (d, code)\<close>:
  its \<^verbatim>\<open>close\<close> event comes \<^verbatim>\<open>d\<close> ms after the kill with that code,
  \<^verbatim>\<open>None\<close>: no \<^verbatim>\<open>close\<close> event comes); the pid of the next spawn; what the
  Builder does.
\<close>

record env =
  platform :: os
  groupKillThrows :: bool
  closeAfter :: "(int \<times> int option) option"
  pidOf :: "nat \<Rightarrow> nat"
  entryIsTS :: bool
  compileError :: "jstring option"
  bundleError :: "jstring option"

definition emit :: "effect \<Rightarrow> dev_state \<Rightarrow> dev_state" where
  "emit x st = st\<lparr>trace := trace st @ [x]\<rparr>"

text \<open>\<^verbatim>\<open>await new Promise(r => setTimeout(r, ms))\<close>\<close>

definition delay :: "int \<Rightarrow> dev_state \<Rightarrow> dev_state" where
  "delay ms st = emit (Sleep ms) (st\<lparr>now := now st + ms\<rparr>)"

text \<open>The runtime marks a process object as exited just before it emits \<^verbatim>\<open>close\<close>.\<close>

definition closed :: "nat \<Rightarrow> int option \<Rightarrow> dev_state \<Rightarrow> dev_state" where
  "closed h code st =
     st\<lparr>children := (children st)[h := (children st ! h)\<lparr>exitCode := code, running := False\<rparr>]\<rparr>"

text \<open>\<^verbatim>\<open>serverProcess = spawn("cargo", ...)\<close> with the closure variables at their initial values.\<close>

definition spawn :: "env \<Rightarrow> int \<Rightarrow> nat \<Rightarrow> dev_state \<Rightarrow> dev_state" where
  "spawn e t0 r st =
     (let h = length (children st);
          c = \<lparr>pid = pidOf e h, exitCode = None, running = True, startTime = t0,
               retryCount = r, isReady = False, stdoutBuffer = [], buildLogs = [],
               slowTimer = True\<rparr>
      in emit (Spawn (pidOf e h)) (st\<lparr>children := children st @ [c], serverProcess := Some h\<rparr>))"

subsection \<open>\<^verbatim>\<open>src/templates/titan/dev.js\<close>\<close>

definition RETRY_WAIT_TIME :: int where "RETRY_WAIT_TIME = 2000"
definition STANDARD_WAIT_TIME :: int where "STANDARD_WAIT_TIME = 1000"
definition KILL_TIMEOUT :: int where "KILL_TIMEOUT = 3000"
definition CRASH_DETECTION_WINDOW :: int where "CRASH_DETECTION_WINDOW = 10000"
definition MAX_RETRY_ATTEMPTS :: nat where "MAX_RETRY_ATTEMPTS = 3"
definition DEBOUNCE_DELAY :: int where "DEBOUNCE_DELAY = 500"

definition killWindowsProcess :: "nat \<Rightarrow> dev_state \<Rightarrow> dev_state" where
  "killWindowsProcess p st = emit (Taskkill p) st"

definition killUnixProcess :: "env \<Rightarrow> nat \<Rightarrow> nat \<Rightarrow> dev_state \<Rightarrow> dev_state" where
  "killUnixProcess e p h st =
     (if groupKillThrows e then emit (ChildKill h SIGKILL) (emit (KillGroup p) st)
      else emit (KillGroup p) st)"

text \<open>
  \<^verbatim>\<open>killServer\<close>, \<^verbatim>\<open>startRustServer\<close> and \<^verbatim>\<open>handleServerClose\<close> call each other:
  the close listener restarts the server, a start kills the old server, and the
  \<^verbatim>\<open>close\<close> event of the killed process runs its listener while \<^verbatim>\<open>killServer\<close>
  awaits \<^verbatim>\<open>waitForProcessClose\<close>.  That race is the binding of \<^verbatim>\<open>st3\<close>:
  \<^verbatim>\<open>killPromise\<close> is already resolved when the exit code is set; otherwise the
  \<^verbatim>\<open>close\<close> event wins if it comes before \<^verbatim>\<open>KILL_TIMEOUT\<close>, and the timeout
  wins if not.  The return of that \<^verbatim>\<open>await\<close> is recorded as \<^verbatim>\<open>RaceSettled\<close>, after
  the close listener has run and before \<^verbatim>\<open>serverProcess\<close> is set to \<^verbatim>\<open>null\<close>.
\<close>

function killServer :: "env \<Rightarrow> dev_state \<Rightarrow> dev_state"
  and startRustServer :: "env \<Rightarrow> nat \<Rightarrow> dev_state \<Rightarrow> dev_state"
  and handleServerClose :: "env \<Rightarrow> int option \<Rightarrow> int \<Rightarrow> nat \<Rightarrow> dev_state \<Rightarrow> dev_state"
where
  "killServer e st =
     (case serverProcess st of
        None \<Rightarrow> st
      | Some h \<Rightarrow>
          let c = children st ! h;
              st1 = st\<lparr>isKilling := True\<rparr>;
              st2 = (if platform e = Win32 then killWindowsProcess (pid c) st1
                     else killUnixProcess e (pid c) h st1);
              st3 = (if exitCode c \<noteq> None then emit (RaceSettled AlreadyExited) st2
                     else case closeAfter e of
                        None \<Rightarrow>
                          emit (RaceSettled TimeoutWon) (st2\<lparr>now := now st2 + KILL_TIMEOUT\<rparr>)
                      | Some (d, code) \<Rightarrow>
                          if running c \<and> d < KILL_TIMEOUT
                          then emit (RaceSettled (CloseWon d))
                                 (handleServerClose e code (startTime c) (retryCount c)
                                    (closed h code (st2\<lparr>now := now st2 + d\<rparr>)))
                          else emit (RaceSettled TimeoutWon)
                                 (st2\<lparr>now := now st2 + KILL_TIMEOUT\<rparr>))
          in st3\<lparr>serverProcess := None, isKilling := False\<rparr>)"
| "startRustServer e r st =
     (let waitTime = (if r > 0 then RETRY_WAIT_TIME else STANDARD_WAIT_TIME);
          st1 = killServer e st;
          st2 = delay waitTime st1;
          t0 = now st2;
          st3 = (if r > 0
                 then emit (ConsoleLog [Lit ''[Titan] Retrying Rust server (Attempt '', Count r, Lit '')...'']) st2
                 else st2)
      in spawn e t0 r st3)"
| "handleServerClose e code t0 r st =
     (if isKilling st then st
      else
        let st1 = emit (ConsoleLog [Lit ''[Titan] Rust server exited: '', ExitCode code]) st;
            runTime = now st1 - t0;
            shouldRetry = (code \<noteq> Some 0 \<and> code \<noteq> None \<and>
                           runTime < CRASH_DETECTION_WINDOW \<and> r < MAX_RETRY_ATTEMPTS)
        in if shouldRetry
           then startRustServer e (r + 1)
                  (emit (ConsoleLog [Lit ''[Titan] Server crash detected (possibly file lock). Retrying automatically...'']) st1)
           else st1)"
  by pat_completeness auto
termination
  apply (relation "measure (\<lambda>x. case x of
            Inl (e, st) \<Rightarrow> 1
          | Inr (Inl (e, r, st)) \<Rightarrow> 2
          | Inr (Inr (e, code, t0, r, st)) \<Rightarrow> (if isKilling st then 0 else 3))")
  apply (auto simp: closed_def killWindowsProcess_def killUnixProcess_def emit_def)
  done

declare killServer.simps [simp del] startRustServer.simps [simp del]
  handleServerClose.simps [simp del]

text \<open>
  \<^verbatim>\<open>rebuild\<close>: \<^verbatim>\<open>compileAndRunAppEntry\<close> and \<^verbatim>\<open>bundle\<close> are the Builder; each
  either returns or throws an error with a message.  \<^verbatim>\<open>Inl (m, st)\<close> is the
  error \<^verbatim>\<open>m\<close> thrown in state \<^verbatim>\<open>st\<close>, \<^verbatim>\<open>Inr st\<close> the normal return.
\<close>

definition rebuild :: "env \<Rightarrow> dev_state \<Rightarrow> jstring \<times> dev_state + dev_state" where
  "rebuild e st =
     (let st1 = emit (Build ''compileAndRunAppEntry'')
                  (emit (ConsoleLog [Lit ''[Titan] Regenerating routes.json & action_map.json...'']) st)
      in case compileError e of
           Some m \<Rightarrow> Inl (m, st1)
         | None \<Rightarrow>
             (let st2 = emit (Build ''bundle'')
                          (emit (ConsoleLog [Lit ''[Titan] Bundling JS actions...'']) st1)
              in case bundleError e of Some m \<Rightarrow> Inl (m, st2) | None \<Rightarrow> Inr st2))"

definition performInitialBuild :: "env \<Rightarrow> dev_state \<Rightarrow> dev_state" where
  "performInitialBuild e st =
     (case rebuild e st of
        Inr st1 \<Rightarrow> startRustServer e 0 st1
      | Inl (m, st1) \<Rightarrow>
          emit (ConsoleError [Str m])
            (emit (ConsoleLog [Lit ''[Titan] Initial build failed. Waiting for changes...'']) st1))"

definition handleFileChange :: "env \<Rightarrow> jstring \<Rightarrow> dev_state \<Rightarrow> dev_state" where
  "handleFileChange e file st =
     (let st1 = (if js_includes file (str ''.env'')
                 then emit (ConsoleLog [Lit ''[Titan] Env Refreshed'']) st
                 else emit (ConsoleLog [Lit ''[Titan] Change detected: '', Str file]) st)
      in case rebuild e st1 of
           Inr st2 \<Rightarrow>
             startRustServer e 0 (emit (ConsoleLog [Lit ''[Titan] Restarting Rust server...'']) st2)
         | Inl (m, st2) \<Rightarrow>
             emit (ConsoleError [Str m])
               (emit (ConsoleLog [Lit ''[Titan] Build failed -- waiting for changes...'']) st2))"

text \<open>\<^verbatim>\<open>handleExit\<close>; \<^verbatim>\<open>process.exit(0)\<close> ends the run, so nothing follows it.\<close>

definition handleExit :: "env \<Rightarrow> dev_state \<Rightarrow> dev_state" where
  "handleExit e st = killServer e (emit (ConsoleLog [Lit ''[Titan] Stopping server...'']) st)"

subsection \<open>\<^verbatim>\<open>src/unnamed/part_002\<close>\<close>

definition RETRY_WAIT_TIME_p2 :: int where "RETRY_WAIT_TIME_p2 = 2000"
definition STANDARD_WAIT_TIME_p2 :: int where "STANDARD_WAIT_TIME_p2 = 200"
definition RETRY_STANDARD_WAIT_TIME_p2 :: int where "RETRY_STANDARD_WAIT_TIME_p2 = 500"
definition KILL_TIMEOUT_p2 :: int where "KILL_TIMEOUT_p2 = 3000"
definition CRASH_DETECTION_WINDOW_p2 :: int where "CRASH_DETECTION_WINDOW_p2 = 15000"
definition MAX_RETRY_ATTEMPTS_p2 :: nat where "MAX_RETRY_ATTEMPTS_p2 = 5"
definition DEBOUNCE_DELAY_p2 :: int where "DEBOUNCE_DELAY_p2 = 300"
definition SLOW_BUILD_THRESHOLD_p2 :: int where "SLOW_BUILD_THRESHOLD_p2 = 15000"

text \<open>\<^verbatim>\<open>clearTimeout(slowTimer)\<close> of the process object \<^verbatim>\<open>h\<close>.\<close>

definition clearSlowTimer :: "nat \<Rightarrow> dev_state \<Rightarrow> dev_state" where
  "clearSlowTimer h st = st\<lparr>children := (children st)[h := (children st ! h)\<lparr>slowTimer := False\<rparr>]\<rparr>"

text \<open>
  The same three functions; the listener of \<^verbatim>\<open>close\<close> is the closure
  registered in \<^verbatim>\<open>startRustServer\<close>, here \<^verbatim>\<open>onClose_p2\<close> with the process
  object \<^verbatim>\<open>h\<close> whose variables it has captured.
\<close>

function killServer_p2 :: "env \<Rightarrow> dev_state \<Rightarrow> dev_state"
  and startRustServer_p2 :: "env \<Rightarrow> nat \<Rightarrow> dev_state \<Rightarrow> dev_state"
  and onClose_p2 :: "env \<Rightarrow> nat \<Rightarrow> int option \<Rightarrow> dev_state \<Rightarrow> dev_state"
where
  "killServer_p2 e st =
     (case serverProcess st of
        None \<Rightarrow> st
      | Some h \<Rightarrow>
          let c = children st ! h;
              st1 = st\<lparr>isKilling := True\<rparr>;
              st2 = (if platform e = Win32 then emit (Taskkill (pid c)) st1
                     else emit (ChildKill h SIGTERM) st1);
              st3 = (if exitCode c \<noteq> None then emit (RaceSettled AlreadyExited) st2
                     else case closeAfter e of
                        None \<Rightarrow>
                          emit (RaceSettled TimeoutWon) (st2\<lparr>now := now st2 + KILL_TIMEOUT_p2\<rparr>)
                      | Some (d, code) \<Rightarrow>
                          if running c \<and> d < KILL_TIMEOUT_p2
                          then emit (RaceSettled (CloseWon d))
                                 (onClose_p2 e h code
                                    (closed h code (st2\<lparr>now := now st2 + d\<rparr>)))
                          else emit (RaceSettled TimeoutWon)
                                 (st2\<lparr>now := now st2 + KILL_TIMEOUT_p2\<rparr>))
          in st3\<lparr>serverProcess := None, isKilling := False\<rparr>)"
| "startRustServer_p2 e r st =
     (let waitTime = (if r > 0 then RETRY_STANDARD_WAIT_TIME_p2 else STANDARD_WAIT_TIME_p2);
          st1 = killServer_p2 e st;
          st2 = delay waitTime st1;
          t0 = now st2;
          st3 = emit (StartSpinner ''Stabilizing your app on its orbit...'') st2
      in spawn e t0 r st3)"
| "onClose_p2 e h code st =
     (let st0 = clearSlowTimer h st
      in if isKilling st0 then st0
         else
           let c = children st0 ! h;
               runTime = now st0 - startTime c
           in if code \<noteq> Some 0 \<and> code \<noteq> None
              then
                let st1 = emit (StopSpinner False ''Orbit stabilization failed'') st0;
                    st2 = (if \<not> isReady c
                           then emit (ConsoleLog [Lit ''------------------''])
                                  (emit (ConsoleLog [Str (buildLogs c)])
                                     (emit (ConsoleLog [Lit ''--- Build Logs ---'']) st1))
                           else st1)
                in if runTime < CRASH_DETECTION_WINDOW_p2 \<and> retryCount c < MAX_RETRY_ATTEMPTS_p2
                   then startRustServer_p2 e (retryCount c + 1) (delay RETRY_WAIT_TIME_p2 st2)
                   else st2
              else st0)"
  by pat_completeness auto
termination
  apply (relation "measure (\<lambda>x. case x of
            Inl (e, st) \<Rightarrow> 1
          | Inr (Inl (e, r, st)) \<Rightarrow> 2
          | Inr (Inr (e, h, code, st)) \<Rightarrow> (if isKilling st then 0 else 3))")
  apply (auto simp: closed_def emit_def clearSlowTimer_def)
  done

declare killServer_p2.simps [simp del] startRustServer_p2.simps [simp del]
  onClose_p2.simps [simp del]

text \<open>The listener of \<^verbatim>\<open>error\<close>.\<close>

definition onError_p2 :: "jstring \<Rightarrow> dev_state \<Rightarrow> dev_state" where
  "onError_p2 m st =
     emit (ConsoleError [Lit ''[Titan] Error: '', Str m])
       (emit (StopSpinner False ''Failed to start orbit'') st)"

text \<open>The callback of \<^verbatim>\<open>slowTimer\<close>, run if the timeout was not cleared.\<close>

definition onSlowTimer_p2 :: "nat \<Rightarrow> dev_state \<Rightarrow> dev_state" where
  "onSlowTimer_p2 h st =
     (let c = children st ! h
      in if \<not> slowTimer c then st
         else let st1 = clearSlowTimer h st
              in if \<not> isReady c \<and> \<not> isKilling st
                 then emit (StartSpinner ''Still stabilizing... (the first orbit takes longer)'') st1
                 else st1)"

text \<open>The listener of \<^verbatim>\<open>stderr\<close> data; \<^verbatim>\<open>d\<close> is the chunk as \<^verbatim>\<open>data.toString()\<close> gives it.\<close>

definition onStderr_p2 :: "nat \<Rightarrow> jstring \<Rightarrow> dev_state \<Rightarrow> dev_state" where
  "onStderr_p2 h d st =
     (let c = children st ! h
      in if isReady c then emit (StderrWrite d) st
         else st\<lparr>children := (children st)[h := c\<lparr>buildLogs := buildLogs c @ d\<rparr>]\<rparr>)"

definition banner_running :: jstring where
  "banner_running = str ''Titan server running''"

definition banner_top :: jstring where
  "banner_top = replicate 8 0x2588 @ [0x2557]"

definition isBanner :: "jstring \<Rightarrow> bool" where
  "isBanner line \<longleftrightarrow>
     js_includes line banner_running \<or>
     js_includes line banner_top \<or>
     js_includes line [0x255A, 0x2550, 0x2550] \<or>
     js_includes line [0x20, 0x20, 0x20, 0x2588, 0x2588, 0x2551] \<or>
     js_includes line [0x20, 0x20, 0x20, 0x255A, 0x2550, 0x255D]"

text \<open>The listener of \<^verbatim>\<open>stdout\<close> data.\<close>

definition onStdout_p2 :: "nat \<Rightarrow> jstring \<Rightarrow> dev_state \<Rightarrow> dev_state" where
  "onStdout_p2 h d st =
     (let c = children st ! h
      in if \<not> isReady c
         then
           let buf = stdoutBuffer c @ d
           in if js_includes buf banner_running \<or> js_includes buf banner_top
              then
                let st1 = emit (StopSpinner True ''Your app is now orbiting Titan Planet'')
                            (st\<lparr>children := (children st)[h := c\<lparr>stdoutBuffer := buf, isReady := True,
                                                                 slowTimer := False\<rparr>]\<rparr>);
                    st2 = (if isFirstBoot st1
                           then (emit (StdoutWrite buf) st1)\<lparr>isFirstBoot := False\<rparr>
                           else fold (\<lambda>line s.
                                        if \<not> isBanner line \<and> trim line \<noteq> []
                                        then emit (StdoutWrite (line @ [10])) s else s)
                                  (split_nl buf) st1)
                in st2\<lparr>children := (children st2)[h := (children st2 ! h)\<lparr>stdoutBuffer := []\<rparr>]\<rparr>
              else st\<lparr>children := (children st)[h := c\<lparr>stdoutBuffer := buf\<rparr>]\<rparr>
         else emit (StdoutWrite d) st)"

text \<open>
  \<^verbatim>\<open>rebuild\<close> catches what the Builder throws, reports it and returns
  normally.
\<close>

definition rebuild_p2 :: "env \<Rightarrow> dev_state \<Rightarrow> dev_state" where
  "rebuild_p2 e st =
     (let st1 = (if entryIsTS e then emit (Build ''compileTypeScript'') st
                 else emit (Build ''node app/app.js'') st)
      in case compileError e of
           None \<Rightarrow> st1
         | Some m \<Rightarrow>
             emit (ConsoleLog [Lit ''[Titan] Error: '', Str m])
               (emit (StopSpinner False ''Failed to prepare runtime'') st1))"

text \<open>
  The \<^verbatim>\<open>try\<close> block of \<^verbatim>\<open>startDev\<close> and the debounced callback of the watcher.
  None of the three awaited functions throws, so the \<^verbatim>\<open>catch\<close> has no branch
  here.  The header lines that \<^verbatim>\<open>startDev\<close> prints first are left out.
\<close>

definition startDev_p2 :: "env \<Rightarrow> dev_state \<Rightarrow> dev_state" where
  "startDev_p2 e st = startRustServer_p2 e 0 (rebuild_p2 e st)"

definition onChange_p2 :: "env \<Rightarrow> dev_state \<Rightarrow> dev_state" where
  "onChange_p2 e st = startRustServer_p2 e 0 (rebuild_p2 e (killServer_p2 e st))"

definition handleExit_p2 :: "env \<Rightarrow> dev_state \<Rightarrow> dev_state" where
  "handleExit_p2 e st =
     killServer_p2 e (emit (ConsoleLog [Lit ''[Titan] Stopping server...'']) (emit (StopSpinner True []) st))"

subsection \<open>The debounced watcher\<close>

text \<open>
  The listener of the watcher's \<^verbatim>\<open>all\<close> event is the same in both revisions up
  to the delay and the callback.  \<^verbatim>\<open>timer\<close> is the variable of that name (the
  id of the last timeout created), \<^verbatim>\<open>pending\<close> the runtime's queue of timeouts
  that have neither fired nor been cleared (id, due time, the \<^verbatim>\<open>file\<close> the
  callback has captured), \<^verbatim>\<open>app\<close> the state the callback works on.
\<close>

record 's watcher =
  timer :: "nat option"
  pending :: "(nat \<times> int \<times> jstring) list"
  nextTimer :: nat
  app :: 's

definition clearTimeout :: "nat \<Rightarrow> 's watcher \<Rightarrow> 's watcher" where
  "clearTimeout i w = w\<lparr>pending := filter (\<lambda>(j, due, file). j \<noteq> i) (pending w)\<rparr>"

definition onAll :: "int \<Rightarrow> int \<Rightarrow> jstring \<Rightarrow> 's watcher \<Rightarrow> 's watcher" where
  "onAll D t file w =
     (let w1 = (case timer w of None \<Rightarrow> w | Some i \<Rightarrow> clearTimeout i w)
      in w1\<lparr>timer := Some (nextTimer w1),
            pending := pending w1 @ [(nextTimer w1, t + D, file)],
            nextTimer := Suc (nextTimer w1)\<rparr>)"

text \<open>
  The event loop: the timeouts that are due at time \<^verbatim>\<open>t\<close> fire, oldest first;
  the callback \<^verbatim>\<open>cb\<close> gets the captured file and the time of firing.
\<close>

definition fireDue :: "(jstring \<Rightarrow> int \<Rightarrow> 's \<Rightarrow> 's) \<Rightarrow> int \<Rightarrow> 's watcher \<Rightarrow> 's watcher" where
  "fireDue cb t w =
     (let due = filter (\<lambda>(j, d, file). d \<le> t) (pending w);
          rest = filter (\<lambda>(j, d, file). \<not> d \<le> t) (pending w)
      in w\<lparr>pending := rest, app := fold (\<lambda>(j, d, file) s. cb file d s) due (app w)\<rparr>)"

text \<open>
  A run over the watcher events \<^verbatim>\<open>(t, file)\<close> in the order they arrive, and
  then until no timeout is left.
\<close>

fun deliver :: "int \<Rightarrow> (jstring \<Rightarrow> int \<Rightarrow> 's \<Rightarrow> 's) \<Rightarrow> (int \<times> jstring) list \<Rightarrow> 's watcher \<Rightarrow> 's watcher" where
  "deliver D cb [] w = w"
| "deliver D cb ((t, file) # evs) w = deliver D cb evs (onAll D t file (fireDue cb t w))"

definition drain :: "(jstring \<Rightarrow> int \<Rightarrow> 's \<Rightarrow> 's) \<Rightarrow> 's watcher \<Rightarrow> 's watcher" where
  "drain cb w = w\<lparr>pending := [], app := fold (\<lambda>(j, d, file) s. cb file d s) (pending w) (app w)\<rparr>"

definition runWatcher :: "int \<Rightarrow> (jstring \<Rightarrow> int \<Rightarrow> 's \<Rightarrow> 's) \<Rightarrow> (int \<times> jstring) list \<Rightarrow> 's \<Rightarrow> 's" where
  "runWatcher D cb evs s =
     app (drain cb (deliver D cb evs \<lparr>timer = None, pending = [], nextTimer = 0, app = s\<rparr>))"

text \<open>\<^verbatim>\<open>createFileWatcher\<close> and the watcher of \<^verbatim>\<open>part_002\<close>.\<close>

definition createFileWatcher :: "env \<Rightarrow> (int \<times> jstring) list \<Rightarrow> dev_state \<Rightarrow> dev_state" where
  "createFileWatcher e evs st =
     runWatcher DEBOUNCE_DELAY (\<lambda>file t s. handleFileChange e file (s\<lparr>now := t\<rparr>)) evs st"

definition watcher_p2 :: "env \<Rightarrow> (int \<times> jstring) list \<Rightarrow> dev_state \<Rightarrow> dev_state" where
  "watcher_p2 e evs st =
     runWatcher DEBOUNCE_DELAY_p2 (\<lambda>file t s. onChange_p2 e (s\<lparr>now := t\<rparr>)) evs st"

subsection \<open>The server process as the supervisor sees it\<close>

text \<open>
  The \<^verbatim>\<open>close\<close> event of process \<^verbatim>\<open>h\<close> with exit code \<^verbatim>\<open>code\<close> at time \<^verbatim>\<open>t\<close>:
  the runtime marks the object and calls the listener registered at its spawn.
\<close>

definition closeEvent :: "env \<Rightarrow> nat \<Rightarrow> int option \<Rightarrow> int \<Rightarrow> dev_state \<Rightarrow> dev_state" where
  "closeEvent e h code t st =
     (let c = children st ! h
      in handleServerClose e code (startTime c) (retryCount c) (closed h code (st\<lparr>now := t\<rparr>)))"

definition closeEvent_p2 :: "env \<Rightarrow> nat \<Rightarrow> int option \<Rightarrow> int \<Rightarrow> dev_state \<Rightarrow> dev_state" where
  "closeEvent_p2 e h code t st = onClose_p2 e h code (closed h code (st\<lparr>now := t\<rparr>))"

text \<open>
  A script says how each server process in turn ends: its exit code and how
  long after its start.  The current process takes the next entry; the run is
  over when the script is used up or no process is running.
\<close>

fun supervise :: "env \<Rightarrow> (int option \<times> int) list \<Rightarrow> dev_state \<Rightarrow> dev_state" where
  "supervise e [] st = st"
| "supervise e ((code, rt) # script) st =
     (case serverProcess st of
        None \<Rightarrow> st
      | Some h \<Rightarrow>
          if h < length (children st) \<and> running (children st ! h)
          then supervise e script (closeEvent e h code (startTime (children st ! h) + rt) st)
          else st)"

fun supervise_p2 :: "env \<Rightarrow> (int option \<times> int) list \<Rightarrow> dev_state \<Rightarrow> dev_state" where
  "supervise_p2 e [] st = st"
| "supervise_p2 e ((code, rt) # script) st =
     (case serverProcess st of
        None \<Rightarrow> st
      | Some h \<Rightarrow>
          if h < length (children st) \<and> running (children st ! h)
          then supervise_p2 e script (closeEvent_p2 e h code (startTime (children st ! h) + rt) st)
          else st)"

text \<open>The output of a server process: chunks on \<^verbatim>\<open>stdout\<close> and \<^verbatim>\<open>stderr\<close>, in order.\<close>

datatype chunk = Out jstring | Err jstring

fun feed_p2 :: "nat \<Rightarrow> chunk list \<Rightarrow> dev_state \<Rightarrow> dev_state" where
  "feed_p2 h [] st = st"
| "feed_p2 h (Out d # cs) st = feed_p2 h cs (onStdout_p2 h d st)"
| "feed_p2 h (Err d # cs) st = feed_p2 h cs (onStderr_p2 h d st)"

subsection \<open>Observations\<close>

text \<open>The retry counts of the spawns, in order; the number of processes alive.\<close>

definition spawnedWith :: "dev_state \<Rightarrow> nat list" where
  "spawnedWith st = map retryCount (children st)"

definition liveCount :: "dev_state \<Rightarrow> nat" where
  "liveCount st = length (filter running (children st))"

text \<open>The state at the start of a dev session.\<close>

definition initial :: dev_state where
  "initial = \<lparr>serverProcess = None, isKilling = False, isFirstBoot = True, now = 0,
              children = [], trace = []\<rparr>"

text \<open>
  The kill commands that \<^verbatim>\<open>killServer\<close> issues for the process object \<^verbatim>\<open>h\<close>
  with pid \<^verbatim>\<open>p\<close>, and the effects that are kill commands.
\<close>

definition killCmd :: "env \<Rightarrow> nat \<Rightarrow> nat \<Rightarrow> effect list" where
  "killCmd e p h =
     (if platform e = Win32 then [Taskkill p]
      else if groupKillThrows e then [KillGroup p, ChildKill h SIGKILL]
      else [KillGroup p])"

definition killCmd_p2 :: "env \<Rightarrow> nat \<Rightarrow> nat \<Rightarrow> effect list" where
  "killCmd_p2 e p h = (if platform e = Win32 then [Taskkill p] else [ChildKill h SIGTERM])"

text \<open>
  How the race of \<^verbatim>\<open>killServer\<close> ends for the process object \<^verbatim>\<open>c\<close> under a
  timeout of \<^verbatim>\<open>T\<close> ms.
\<close>

definition settled :: "int \<Rightarrow> env \<Rightarrow> child \<Rightarrow> raceResult" where
  "settled T e c =
     (if exitCode c \<noteq> None then AlreadyExited
      else case closeAfter e of
             None \<Rightarrow> TimeoutWon
           | Some (d, code) \<Rightarrow> if running c \<and> d < T then CloseWon d else TimeoutWon)"

text \<open>
  What \<^verbatim>\<open>killServer\<close> adds to the trace: nothing when \<^verbatim>\<open>serverProcess\<close> is
  \<^verbatim>\<open>null\<close>, otherwise the kill commands and then the end of the wait.
\<close>

definition killEffects :: "env \<Rightarrow> dev_state \<Rightarrow> effect list" where
  "killEffects e st =
     (case serverProcess st of
        None \<Rightarrow> []
      | Some h \<Rightarrow> killCmd e (pid (children st ! h)) h @
                  [RaceSettled (settled KILL_TIMEOUT e (children st ! h))])"

definition killEffects_p2 :: "env \<Rightarrow> dev_state \<Rightarrow> effect list" where
  "killEffects_p2 e st =
     (case serverProcess st of
        None \<Rightarrow> []
      | Some h \<Rightarrow> killCmd_p2 e (pid (children st ! h)) h @
                  [RaceSettled (settled KILL_TIMEOUT_p2 e (children st ! h))])"


text \<open>
  The effects of \<^verbatim>\<open>console.log\<close>, \<^verbatim>\<open>console.error\<close>, \<^verbatim>\<open>process.stdout.write\<close> and
  \<^verbatim>\<open>process.stderr.write\<close>.
\<close>

fun isOutput :: "effect \<Rightarrow> bool" where
  "isOutput (ConsoleLog x) = True"
| "isOutput (ConsoleError x) = True"
| "isOutput (StdoutWrite x) = True"
| "isOutput (StderrWrite x) = True"
| "isOutput x = False"

text \<open>
  What holds of every state the program can be in: \<^verbatim>\<open>serverProcess\<close> refers to
  an existing object, and a process whose exit code is set is not running.
\<close>

definition wellFormed :: "dev_state \<Rightarrow> bool" where
  "wellFormed st \<longleftrightarrow>
     (case serverProcess st of None \<Rightarrow> True | Some h \<Rightarrow> h < length (children st)) \<and>
     list_all (\<lambda>c. exitCode c \<noteq> None \<longrightarrow> \<not> running c) (children st)"

text \<open>The build logs dumped with \<^verbatim>\<open>console.log(buildLogs)\<close> and the chunks written to \<^verbatim>\<open>stderr\<close>.\<close>

fun dumps :: "effect list \<Rightarrow> jstring list" where
  "dumps [] = []"
| "dumps (ConsoleLog [Str x] # xs) = x # dumps xs"
| "dumps (y # xs) = dumps xs"

fun stderrWrites :: "effect list \<Rightarrow> jstring list" where
  "stderrWrites [] = []"
| "stderrWrites (StderrWrite x # xs) = x # stderrWrites xs"
| "stderrWrites (y # xs) = stderrWrites xs"

text \<open>
  Read off the output of a process alone, with \<^verbatim>\<open>buf\<close> the \<^verbatim>\<open>stdout\<close> text
  accumulated so far: whether a text holds a readiness banner; the \<^verbatim>\<open>stderr\<close>
  text of the chunks that arrive before a banner is complete in the accumulated
  \<^verbatim>\<open>stdout\<close>; the \<^verbatim>\<open>stderr\<close> chunks that arrive after that; whether a banner
  ever becomes complete.
\<close>

definition hasBanner :: "jstring \<Rightarrow> bool" where
  "hasBanner buf \<longleftrightarrow> js_includes buf banner_running \<or> js_includes buf banner_top"

fun stderrBeforeReady :: "jstring \<Rightarrow> chunk list \<Rightarrow> jstring" where
  "stderrBeforeReady buf [] = []"
| "stderrBeforeReady buf (Err d # cs) = d @ stderrBeforeReady buf cs"
| "stderrBeforeReady buf (Out d # cs) =
     (if hasBanner (buf @ d) then [] else stderrBeforeReady (buf @ d) cs)"

fun stderrAfterReady :: "jstring \<Rightarrow> chunk list \<Rightarrow> jstring list" where
  "stderrAfterReady buf [] = []"
| "stderrAfterReady buf (Err d # cs) = stderrAfterReady buf cs"
| "stderrAfterReady buf (Out d # cs) =
     (if hasBanner (buf @ d) then [x. Err x \<leftarrow> cs] else stderrAfterReady (buf @ d) cs)"

fun becomesReady :: "jstring \<Rightarrow> chunk list \<Rightarrow> bool" where
  "becomesReady buf [] = False"
| "becomesReady buf (Err d # cs) = becomesReady buf cs"
| "becomesReady buf (Out d # cs) = (hasBanner (buf @ d) \<or> becomesReady (buf @ d) cs)"

text \<open>
  What a process that is not ready yet, with \<^verbatim>\<open>stdout\<close> text \<^verbatim>\<open>buf\<close> accumulated
  so far, makes the listeners of its output emit, chunk by chunk: nothing until
  a banner is complete in the accumulated \<^verbatim>\<open>stdout\<close>; at that chunk the spinner
  is stopped and the accumulated \<^verbatim>\<open>stdout\<close> is written (whole at the first boot,
  \<^verbatim>\<open>fb\<close>, otherwise without its banner lines and blank lines); from then on every
  chunk is written to the stream it came from.
\<close>

fun echo :: "chunk \<Rightarrow> effect" where
  "echo (Out d) = StdoutWrite d"
| "echo (Err d) = StderrWrite d"

definition bannerOutput :: "bool \<Rightarrow> jstring \<Rightarrow> effect list" where
  "bannerOutput fb buf =
     StopSpinner True ''Your app is now orbiting Titan Planet'' #
     (if fb then [StdoutWrite buf]
      else map (\<lambda>line. StdoutWrite (line @ [10]))
             (filter (\<lambda>line. \<not> isBanner line \<and> trim line \<noteq> []) (split_nl buf)))"

fun printed :: "bool \<Rightarrow> jstring \<Rightarrow> chunk list \<Rightarrow> effect list" where
  "printed fb buf [] = []"
| "printed fb buf (Err d # cs) = printed fb buf cs"
| "printed fb buf (Out d # cs) =
     (if hasBanner (buf @ d) then bannerOutput fb (buf @ d) @ map echo cs
      else printed fb (buf @ d) cs)"

text \<open>
  A burst of watcher events: in order of time, each less than \<^verbatim>\<open>D\<close> after the
  one before.  \<^verbatim>\<open>fires\<close> lists the calls of the debounced callback in a run.
\<close>

fun burst :: "int \<Rightarrow> (int \<times> jstring) list \<Rightarrow> bool" where
  "burst D [] = True"
| "burst D [x] = True"
| "burst D (x # y # evs) = (fst x \<le> fst y \<and> fst y - fst x < D \<and> burst D (y # evs))"

definition fires :: "int \<Rightarrow> (int \<times> jstring) list \<Rightarrow> (int \<times> jstring) list" where
  "fires D evs = runWatcher D (\<lambda>file t l. l @ [(t, file)]) evs []"

text \<open>A script in which every process exits with code 1 inside the window \<^verbatim>\<open>W\<close>.\<close>

definition crashesWithin :: "int \<Rightarrow> (int option \<times> int) list \<Rightarrow> bool" where
  "crashesWithin W script \<longleftrightarrow> list_all (\<lambda>(code, rt). code = Some 1 \<and> 0 \<le> rt \<and> rt < W) script"

text \<open>
  \<^verbatim>\<open>current st h r\<close>: the server process is the object \<^verbatim>\<open>h\<close>, it is running, it
  was started with retry count \<^verbatim>\<open>r\<close>, and no kill is under way.  \<^verbatim>\<open>idle st\<close>:
  no kill is under way and the server process, if there is one, has ended.
\<close>

definition current :: "dev_state \<Rightarrow> nat \<Rightarrow> nat \<Rightarrow> bool" where
  "current st h r \<longleftrightarrow>
     serverProcess st = Some h \<and> h < length (children st) \<and> running (children st ! h) \<and>
     retryCount (children st ! h) = r \<and> \<not> isKilling st"

definition idle :: "dev_state \<Rightarrow> bool" where
  "idle st \<longleftrightarrow>
     \<not> isKilling st \<and>
     (case serverProcess st of None \<Rightarrow> True
      | Some h \<Rightarrow> h < length (children st) \<and> \<not> running (children st ! h))"

text \<open>
  What the restart logic reads of a state: the two module variables and, for
  every process object, whether it runs and its retry count.
\<close>

definition control :: "dev_state \<Rightarrow> nat option \<times> bool \<times> (bool \<times> nat) list" where
  "control st =
     (serverProcess st, isKilling st, map (\<lambda>c. (running c, retryCount c)) (children st))"

subsection \<open>Sample inputs\<close>

definition envHangs :: env where
  "envHangs = \<lparr>platform = Posix, groupKillThrows = False, closeAfter = None,
               pidOf = (\<lambda>h. 100 + h), entryIsTS = False, compileError = None,
               bundleError = None\<rparr>"

definition envDies :: env where
  "envDies = envHangs\<lparr>closeAfter := Some (50, None)\<rparr>"

definition envBuildFails :: env where
  "envBuildFails = envDies\<lparr>compileError := Some (str ''boom'')\<rparr>"

definition serverUp :: dev_state where
  "serverUp = \<lparr>serverProcess = Some 0, isKilling = False, isFirstBoot = True, now = 0,
               children = [\<lparr>pid = 100, exitCode = None, running = True, startTime = 0,
                             retryCount = 0, isReady = False, stdoutBuffer = [],
                             buildLogs = [], slowTimer = True\<rparr>],
               trace = []\<rparr>"

definition serverExited :: dev_state where
  "serverExited = \<lparr>serverProcess = Some 0, isKilling = False, isFirstBoot = True, now = 0,
               children = [\<lparr>pid = 100, exitCode = Some 0, running = False, startTime = 0,
                             retryCount = 0, isReady = False, stdoutBuffer = [],
                             buildLogs = [], slowTimer = True\<rparr>],
               trace = []\<rparr>"

text \<open>A server process that was ended by a signal: closed, and its exit code is \<^verbatim>\<open>null\<close>.\<close>

definition serverSignalled :: dev_state where
  "serverSignalled = \<lparr>serverProcess = Some 0, isKilling = False, isFirstBoot = True, now = 0,
               children = [\<lparr>pid = 100, exitCode = None, running = False, startTime = 0,
                             retryCount = 0, isReady = False, stdoutBuffer = [],
                             buildLogs = [], slowTimer = True\<rparr>],
               trace = []\<rparr>"

section \<open>Properties\<close>

subsection \<open>The state after each primitive\<close>

lemma emit_simps [simp]:
  "serverProcess (emit x st) = serverProcess st"
  "isKilling (emit x st) = isKilling st"
  "isFirstBoot (emit x st) = isFirstBoot st"
  "now (emit x st) = now st"
  "children (emit x st) = children st"
  "trace (emit x st) = trace st @ [x]"
  by (simp_all add: emit_def)

lemma delay_simps [simp]:
  "serverProcess (delay ms st) = serverProcess st"
  "isKilling (delay ms st) = isKilling st"
  "isFirstBoot (delay ms st) = isFirstBoot st"
  "now (delay ms st) = now st + ms"
  "children (delay ms st) = children st"
  "trace (delay ms st) = trace st @ [Sleep ms]"
  by (simp_all add: delay_def)

lemma closed_simps [simp]:
  "serverProcess (closed h code st) = serverProcess st"
  "isKilling (closed h code st) = isKilling st"
  "isFirstBoot (closed h code st) = isFirstBoot st"
  "now (closed h code st) = now st"
  "children (closed h code st) = (children st)[h := (children st ! h)\<lparr>exitCode := code, running := False\<rparr>]"
  "trace (closed h code st) = trace st"
  by (simp_all add: closed_def)

lemma clearSlowTimer_simps [simp]:
  "serverProcess (clearSlowTimer h st) = serverProcess st"
  "isKilling (clearSlowTimer h st) = isKilling st"
  "isFirstBoot (clearSlowTimer h st) = isFirstBoot st"
  "now (clearSlowTimer h st) = now st"
  "children (clearSlowTimer h st) = (children st)[h := (children st ! h)\<lparr>slowTimer := False\<rparr>]"
  "trace (clearSlowTimer h st) = trace st"
  by (simp_all add: clearSlowTimer_def)

lemma spawn_simps [simp]:
  "serverProcess (spawn e t0 r st) = Some (length (children st))"
  "isKilling (spawn e t0 r st) = isKilling st"
  "isFirstBoot (spawn e t0 r st) = isFirstBoot st"
  "now (spawn e t0 r st) = now st"
  "children (spawn e t0 r st) = children st @
      [\<lparr>pid = pidOf e (length (children st)), exitCode = None, running = True, startTime = t0,
        retryCount = r, isReady = False, stdoutBuffer = [], buildLogs = [], slowTimer = True\<rparr>]"
  "trace (spawn e t0 r st) = trace st @ [Spawn (pidOf e (length (children st)))]"
  by (simp_all add: spawn_def Let_def)

lemma handleServerClose_killing: "isKilling st \<Longrightarrow> handleServerClose e code t0 r st = st"
  by (simp add: handleServerClose.simps)

lemma onClose_p2_killing: "isKilling st \<Longrightarrow> onClose_p2 e h code st = clearSlowTimer h st"
  by (simp add: onClose_p2.simps Let_def)

lemma killServer_None: "serverProcess st = None \<Longrightarrow> killServer e st = st"
  by (simp add: killServer.simps)

lemma killServer_p2_None: "serverProcess st = None \<Longrightarrow> killServer_p2 e st = st"
  by (simp add: killServer_p2.simps)

lemma killServer_Some:
  "serverProcess st = Some h \<Longrightarrow> killServer e st =
     (let c = children st ! h;
          st2 = st\<lparr>isKilling := True, trace := trace st @ killCmd e (pid c) h\<rparr>;
          st3 = (if exitCode c \<noteq> None then emit (RaceSettled AlreadyExited) st2
                 else case closeAfter e of
                        None \<Rightarrow> emit (RaceSettled TimeoutWon) (st2\<lparr>now := now st2 + KILL_TIMEOUT\<rparr>)
                      | Some (d, code) \<Rightarrow>
                          if running c \<and> d < KILL_TIMEOUT
                          then emit (RaceSettled (CloseWon d)) (closed h code (st2\<lparr>now := now st2 + d\<rparr>))
                          else emit (RaceSettled TimeoutWon) (st2\<lparr>now := now st2 + KILL_TIMEOUT\<rparr>))
      in st3\<lparr>serverProcess := None, isKilling := False\<rparr>)"
  by (auto simp add: killServer.simps Let_def handleServerClose_killing killCmd_def
      killWindowsProcess_def killUnixProcess_def emit_def closed_def split: option.splits)

lemma killServer_p2_Some:
  "serverProcess st = Some h \<Longrightarrow> killServer_p2 e st =
     (let c = children st ! h;
          st2 = st\<lparr>isKilling := True, trace := trace st @ killCmd_p2 e (pid c) h\<rparr>;
          st3 = (if exitCode c \<noteq> None then emit (RaceSettled AlreadyExited) st2
                 else case closeAfter e of
                        None \<Rightarrow> emit (RaceSettled TimeoutWon) (st2\<lparr>now := now st2 + KILL_TIMEOUT_p2\<rparr>)
                      | Some (d, code) \<Rightarrow>
                          if running c \<and> d < KILL_TIMEOUT_p2
                          then emit (RaceSettled (CloseWon d))
                                 (clearSlowTimer h (closed h code (st2\<lparr>now := now st2 + d\<rparr>)))
                          else emit (RaceSettled TimeoutWon) (st2\<lparr>now := now st2 + KILL_TIMEOUT_p2\<rparr>))
      in st3\<lparr>serverProcess := None, isKilling := False\<rparr>)"
  by (auto simp add: killServer_p2.simps Let_def onClose_p2_killing killCmd_p2_def
      emit_def closed_def clearSlowTimer_def split: option.splits)

lemma killServer_exited:
  "serverProcess st = Some h \<Longrightarrow> exitCode (children st ! h) \<noteq> None \<Longrightarrow>
   killServer e st =
     st\<lparr>trace := trace st @ killCmd e (pid (children st ! h)) h @ [RaceSettled AlreadyExited],
        serverProcess := None, isKilling := False\<rparr>"
  by (simp add: killServer_Some Let_def emit_def)

lemma killServer_p2_exited:
  "serverProcess st = Some h \<Longrightarrow> exitCode (children st ! h) \<noteq> None \<Longrightarrow>
   killServer_p2 e st =
     st\<lparr>trace := trace st @ killCmd_p2 e (pid (children st ! h)) h @ [RaceSettled AlreadyExited],
        serverProcess := None, isKilling := False\<rparr>"
  by (simp add: killServer_p2_Some Let_def emit_def)

lemma serverProcess_killServer [simp]: "serverProcess (killServer e st) = None"
  by (cases "serverProcess st") (auto simp: killServer_None killServer_Some Let_def split: option.splits)

lemma serverProcess_killServer_p2 [simp]: "serverProcess (killServer_p2 e st) = None"
  by (cases "serverProcess st") (auto simp: killServer_p2_None killServer_p2_Some Let_def split: option.splits)

subsection \<open>Stopping a server that is absent or has exited\<close>

text \<open>
  C8, as amended.  When \<^verbatim>\<open>serverProcess\<close> is \<^verbatim>\<open>null\<close>, \<^verbatim>\<open>killServer\<close> returns
  the state as it is.  When \<^verbatim>\<open>serverProcess\<close> holds a process whose exit code
  is set, \<^verbatim>\<open>killServer\<close> does not wait (the race is settled from the start,
  the clock does not move and no close listener runs), but it is not a no-op:
  it still issues the platform's kill command for the recorded pid, and it
  clears \<^verbatim>\<open>serverProcess\<close> and \<^verbatim>\<open>isKilling\<close>.  A second call changes nothing.
  All of this in both revisions.  A held process that was ended by a signal, so
  that its exit code is \<^verbatim>\<open>null\<close>, is not covered.
\<close>

theorem killServer_idle_or_exited:
  "(serverProcess st = None \<longrightarrow> killServer e st = st \<and> killServer_p2 e st = st) \<and>
   (serverProcess st = Some h \<and> exitCode (children st ! h) \<noteq> None \<longrightarrow>
      killServer e st =
        st\<lparr>trace := trace st @ killCmd e (pid (children st ! h)) h @ [RaceSettled AlreadyExited],
           serverProcess := None, isKilling := False\<rparr> \<and>
      killServer_p2 e st =
        st\<lparr>trace := trace st @ killCmd_p2 e (pid (children st ! h)) h @ [RaceSettled AlreadyExited],
           serverProcess := None, isKilling := False\<rparr>) \<and>
   killServer e' (killServer e st) = killServer e st \<and>
   killServer_p2 e' (killServer_p2 e st) = killServer_p2 e st"
  by (simp add: killServer_None killServer_p2_None killServer_exited killServer_p2_exited)

theorem killServer_idle_or_exited_witness:
  "serverProcess serverExited = Some 0 \<and> exitCode (children serverExited ! 0) \<noteq> None \<and>
   now (killServer envHangs serverExited) = now serverExited \<and>
   trace (killServer envHangs serverExited) = [KillGroup 100, RaceSettled AlreadyExited] \<and>
   serverProcess (killServer_p2 envHangs serverExited) = None \<and>
   serverProcess initial = None \<and>
   killServer envDies initial = initial"
  using killServer_idle_or_exited [where st = serverExited and h = 0 and e = envHangs and e' = envDies]
    killServer_idle_or_exited [where st = initial and h = 0 and e = envDies and e' = envDies]
  by (simp add: serverExited_def initial_def envHangs_def killCmd_def)

text \<open>
  C8 as stated fails at two inputs.  On a server process that has exited with
  code 0, \<^verbatim>\<open>killServer\<close> changes the state and sends a kill command to pid 100.
  On a server process that was ended by a signal (nothing is running, the exit
  code is \<^verbatim>\<open>null\<close>, \<^verbatim>\<open>serverProcess\<close> still holds the object), \<^verbatim>\<open>killServer\<close>
  sends the kill command and waits until the kill timeout has gone by.
\<close>

theorem killServer_exited_not_noop:
  "killServer envHangs serverExited \<noteq> serverExited \<and>
   trace (killServer envHangs serverExited) = [KillGroup 100, RaceSettled AlreadyExited] \<and>
   killServer_p2 envHangs serverExited \<noteq> serverExited \<and>
   trace (killServer_p2 envHangs serverExited) = [ChildKill 0 SIGTERM, RaceSettled AlreadyExited] \<and>
   liveCount serverSignalled = 0 \<and>
   trace (killServer envDies serverSignalled) = [KillGroup 100, RaceSettled TimeoutWon] \<and>
   now (killServer envDies serverSignalled) = now serverSignalled + 3000 \<and>
   trace (killServer_p2 envDies serverSignalled) = [ChildKill 0 SIGTERM, RaceSettled TimeoutWon] \<and>
   now (killServer_p2 envDies serverSignalled) = now serverSignalled + 3000"
  by (simp add: killServer_exited killServer_p2_exited serverExited_def envHangs_def
      killCmd_def killCmd_p2_def)
    (simp add: killServer_Some killServer_p2_Some Let_def serverSignalled_def envDies_def
      envHangs_def killCmd_def killCmd_p2_def liveCount_def KILL_TIMEOUT_def KILL_TIMEOUT_p2_def)

subsection \<open>What a close event leads to\<close>

lemma nth_update_self:
  "xs[h := f (xs ! h)] ! i = (if i = h \<and> h < length xs then f (xs ! h) else xs ! i)"
  by (cases "h < length xs"; cases "i = h"; simp add: list_update_beyond)

lemma nth_closed_update [simp]:
  "startTime (xs[h := (xs ! h)\<lparr>exitCode := c, running := b\<rparr>] ! i) = startTime (xs ! i)"
  "retryCount (xs[h := (xs ! h)\<lparr>exitCode := c, running := b\<rparr>] ! i) = retryCount (xs ! i)"
  "isReady (xs[h := (xs ! h)\<lparr>exitCode := c, running := b\<rparr>] ! i) = isReady (xs ! i)"
  "buildLogs (xs[h := (xs ! h)\<lparr>exitCode := c, running := b\<rparr>] ! i) = buildLogs (xs ! i)"
  "stdoutBuffer (xs[h := (xs ! h)\<lparr>exitCode := c, running := b\<rparr>] ! i) = stdoutBuffer (xs ! i)"
  "slowTimer (xs[h := (xs ! h)\<lparr>exitCode := c, running := b\<rparr>] ! i) = slowTimer (xs ! i)"
  "pid (xs[h := (xs ! h)\<lparr>exitCode := c, running := b\<rparr>] ! i) = pid (xs ! i)"
  using nth_update_self [of xs h "\<lambda>x. x\<lparr>exitCode := c, running := b\<rparr>" i]
  by simp_all

lemma nth_slowTimer_update [simp]:
  "startTime (xs[h := (xs ! h)\<lparr>slowTimer := b\<rparr>] ! i) = startTime (xs ! i)"
  "retryCount (xs[h := (xs ! h)\<lparr>slowTimer := b\<rparr>] ! i) = retryCount (xs ! i)"
  "isReady (xs[h := (xs ! h)\<lparr>slowTimer := b\<rparr>] ! i) = isReady (xs ! i)"
  "buildLogs (xs[h := (xs ! h)\<lparr>slowTimer := b\<rparr>] ! i) = buildLogs (xs ! i)"
  "stdoutBuffer (xs[h := (xs ! h)\<lparr>slowTimer := b\<rparr>] ! i) = stdoutBuffer (xs ! i)"
  "running (xs[h := (xs ! h)\<lparr>slowTimer := b\<rparr>] ! i) = running (xs ! i)"
  "exitCode (xs[h := (xs ! h)\<lparr>slowTimer := b\<rparr>] ! i) = exitCode (xs ! i)"
  "pid (xs[h := (xs ! h)\<lparr>slowTimer := b\<rparr>] ! i) = pid (xs ! i)"
  using nth_update_self [of xs h "\<lambda>x. x\<lparr>slowTimer := b\<rparr>" i]
  by simp_all

lemma map_retryCount_update:
  "retryCount c = retryCount (xs ! h) \<Longrightarrow> map retryCount (xs[h := c]) = map retryCount xs"
proof (cases "h < length xs")
  case True
  assume "retryCount c = retryCount (xs ! h)"
  with True show ?thesis
    by (simp add: map_update list_update_same_conv)
next
  case False
  then show ?thesis
    by (simp add: list_update_beyond)
qed

lemma spawnedWith_simps [simp]:
  "spawnedWith (emit x st) = spawnedWith st"
  "spawnedWith (delay ms st) = spawnedWith st"
  "spawnedWith (closed h code st) = spawnedWith st"
  "spawnedWith (clearSlowTimer h st) = spawnedWith st"
  "spawnedWith (spawn e t0 r st) = spawnedWith st @ [r]"
  by (simp_all add: spawnedWith_def map_retryCount_update)

lemma spawnedWith_killServer [simp]: "spawnedWith (killServer e st) = spawnedWith st"
  by (cases "serverProcess st")
    (auto simp: killServer_None killServer_Some Let_def spawnedWith_def map_retryCount_update
      split: option.splits)

lemma spawnedWith_killServer_p2 [simp]: "spawnedWith (killServer_p2 e st) = spawnedWith st"
  by (cases "serverProcess st")
    (auto simp: killServer_p2_None killServer_p2_Some Let_def spawnedWith_def map_retryCount_update
      split: option.splits)

lemma spawnedWith_startRustServer [simp]:
  "spawnedWith (startRustServer e r st) = spawnedWith st @ [r]"
  by (simp add: startRustServer.simps Let_def)

lemma spawnedWith_startRustServer_p2 [simp]:
  "spawnedWith (startRustServer_p2 e r st) = spawnedWith st @ [r]"
  by (simp add: startRustServer_p2.simps Let_def)

lemma handleServerClose_no_retry:
  "\<not> isKilling st \<Longrightarrow>
   \<not> (code \<noteq> Some 0 \<and> code \<noteq> None \<and> now st - t0 < CRASH_DETECTION_WINDOW \<and> r < MAX_RETRY_ATTEMPTS) \<Longrightarrow>
   handleServerClose e code t0 r st =
     emit (ConsoleLog [Lit ''[Titan] Rust server exited: '', ExitCode code]) st"
  by (auto simp add: handleServerClose.simps Let_def)

lemma handleServerClose_retry:
  "\<not> isKilling st \<Longrightarrow> code \<noteq> Some 0 \<Longrightarrow> code \<noteq> None \<Longrightarrow>
   now st - t0 < CRASH_DETECTION_WINDOW \<Longrightarrow> r < MAX_RETRY_ATTEMPTS \<Longrightarrow>
   handleServerClose e code t0 r st =
     startRustServer e (r + 1)
       (emit (ConsoleLog [Lit ''[Titan] Server crash detected (possibly file lock). Retrying automatically...''])
          (emit (ConsoleLog [Lit ''[Titan] Rust server exited: '', ExitCode code]) st))"
  by (simp add: handleServerClose.simps Let_def)

lemma onClose_p2_clean:
  "code = Some 0 \<or> code = None \<Longrightarrow> onClose_p2 e h code st = clearSlowTimer h st"
  by (auto simp add: onClose_p2.simps Let_def)

lemma spawnedWith_handleServerClose:
  "spawnedWith (handleServerClose e code t0 r st) =
     (if \<not> isKilling st \<and> code \<noteq> Some 0 \<and> code \<noteq> None \<and>
         now st - t0 < CRASH_DETECTION_WINDOW \<and> r < MAX_RETRY_ATTEMPTS
      then spawnedWith st @ [r + 1] else spawnedWith st)"
  by (simp add: handleServerClose.simps Let_def)

lemma spawnedWith_onClose_p2:
  "spawnedWith (onClose_p2 e h code st) =
     (if \<not> isKilling st \<and> code \<noteq> Some 0 \<and> code \<noteq> None \<and>
         now st - startTime (children st ! h) < CRASH_DETECTION_WINDOW_p2 \<and>
         retryCount (children st ! h) < MAX_RETRY_ATTEMPTS_p2
      then spawnedWith st @ [retryCount (children st ! h) + 1] else spawnedWith st)"
  by (simp add: onClose_p2.simps Let_def)

lemma serverUp_simps:
  "serverProcess serverUp = Some 0" "isKilling serverUp = False" "now serverUp = 0"
  "children serverUp = [\<lparr>pid = 100, exitCode = None, running = True, startTime = 0,
                             retryCount = 0, isReady = False, stdoutBuffer = [],
                             buildLogs = [], slowTimer = True\<rparr>]"
  "trace serverUp = []" "isFirstBoot serverUp = True"
  by (simp_all add: serverUp_def)

lemma spawnedWith_serverUp: "spawnedWith (serverUp\<lparr>now := t\<rparr>) = [0]" "spawnedWith serverUp = [0]"
  by (simp_all add: spawnedWith_def serverUp_def)

text \<open>
  C10.  When the exit code is \<^verbatim>\<open>null\<close> (the process was ended by a signal) and
  \<^verbatim>\<open>isKilling\<close> is false, the close listener does not restart the server:
  \<^verbatim>\<open>handleServerClose\<close> only logs the exit, the listener of \<^verbatim>\<open>part_002\<close> only
  clears its slow timer.  And whenever a close listener does spawn a process, the
  exit code is an integer other than zero and the run time is inside the
  crash-detection window.
\<close>

theorem signal_exit_never_retried:
  "(\<not> isKilling st \<longrightarrow>
      handleServerClose e None t0 r st =
        emit (ConsoleLog [Lit ''[Titan] Rust server exited: '', ExitCode None]) st \<and>
      onClose_p2 e h None st = clearSlowTimer h st) \<and>
   (spawnedWith (handleServerClose e code t0 r st) \<noteq> spawnedWith st \<longrightarrow>
      (\<exists>n. code = Some n \<and> n \<noteq> 0) \<and> now st - t0 < CRASH_DETECTION_WINDOW) \<and>
   (spawnedWith (onClose_p2 e h code st) \<noteq> spawnedWith st \<longrightarrow>
      (\<exists>n. code = Some n \<and> n \<noteq> 0) \<and>
      now st - startTime (children st ! h) < CRASH_DETECTION_WINDOW_p2)"
  by (auto simp add: handleServerClose_no_retry onClose_p2_clean spawnedWith_handleServerClose
      spawnedWith_onClose_p2 split: if_splits)

theorem signal_exit_never_retried_witness:
  "\<not> isKilling serverExited \<and>
   trace (handleServerClose envDies None 0 0 serverExited) =
     [ConsoleLog [Lit ''[Titan] Rust server exited: '', ExitCode None]] \<and>
   trace (onClose_p2 envDies 0 None serverExited) = [] \<and>
   spawnedWith (handleServerClose envDies (Some 1) 0 0 serverExited) \<noteq> spawnedWith serverExited \<and>
   spawnedWith (onClose_p2 envDies 0 (Some 1) serverExited) \<noteq> spawnedWith serverExited \<and>
   now serverExited - 0 < CRASH_DETECTION_WINDOW"
  using signal_exit_never_retried [where st = serverExited and e = envDies and ?t0.0 = 0
      and r = 0 and h = 0 and code = "Some 1"]
  by (simp add: serverExited_def spawnedWith_handleServerClose spawnedWith_onClose_p2
      CRASH_DETECTION_WINDOW_def MAX_RETRY_ATTEMPTS_def CRASH_DETECTION_WINDOW_p2_def
      MAX_RETRY_ATTEMPTS_p2_def)

text \<open>
  C2, as amended.  When the server process exits with code zero while
  \<^verbatim>\<open>isKilling\<close> is false, the close listener does not restart it:
  \<^verbatim>\<open>handleServerClose\<close> only logs the exit, the listener of \<^verbatim>\<open>part_002\<close> only
  clears its slow timer.
\<close>

theorem clean_exit_not_restarted:
  "\<not> isKilling st \<Longrightarrow>
     handleServerClose e (Some 0) t0 r st =
       emit (ConsoleLog [Lit ''[Titan] Rust server exited: '', ExitCode (Some 0)]) st \<and>
     onClose_p2 e h (Some 0) st = clearSlowTimer h st"
  by (simp add: handleServerClose_no_retry onClose_p2_clean)

theorem clean_exit_not_restarted_witness:
  "\<not> isKilling serverExited \<and>
   trace (handleServerClose envDies (Some 0) 0 0 serverExited) =
     [ConsoleLog [Lit ''[Titan] Rust server exited: '', ExitCode (Some 0)]] \<and>
   trace (onClose_p2 envDies 0 (Some 0) serverExited) = []"
  using clean_exit_not_restarted [where st = serverExited and e = envDies and ?t0.0 = 0
      and r = 0 and h = 0]
  by (simp add: serverExited_def)

text \<open>
  C2 as stated fails: a first server process that closes 100 ms after its start
  with code 0 is not replaced, and the same process closing with code 1 is.
\<close>

theorem clean_exit_unlike_crash:
  "spawnedWith (closeEvent envDies 0 (Some 0) 100 serverUp) = [0] \<and>
   spawnedWith (closeEvent envDies 0 (Some 1) 100 serverUp) = [0, 1] \<and>
   spawnedWith (closeEvent_p2 envDies 0 (Some 0) 100 serverUp) = [0] \<and>
   spawnedWith (closeEvent_p2 envDies 0 (Some 1) 100 serverUp) = [0, 1]"
  by (simp add: closeEvent_def closeEvent_p2_def spawnedWith_handleServerClose
      spawnedWith_onClose_p2 serverUp_simps spawnedWith_serverUp CRASH_DETECTION_WINDOW_def
      MAX_RETRY_ATTEMPTS_def CRASH_DETECTION_WINDOW_p2_def MAX_RETRY_ATTEMPTS_p2_def)

subsection \<open>A start and the process before it\<close>

lemma length_children_killServer [simp]:
  "length (children (killServer e st)) = length (children st)"
  by (cases "serverProcess st")
    (auto simp: killServer_None killServer_Some Let_def split: option.splits)

lemma length_children_killServer_p2 [simp]:
  "length (children (killServer_p2 e st)) = length (children st)"
  by (cases "serverProcess st")
    (auto simp: killServer_p2_None killServer_p2_Some Let_def split: option.splits)

lemma nth_slowTimer_update2 [simp]:
  "startTime (xs[h := (xs[h := y] ! h)\<lparr>slowTimer := b\<rparr>] ! i) = startTime (xs[h := y] ! i)"
  "retryCount (xs[h := (xs[h := y] ! h)\<lparr>slowTimer := b\<rparr>] ! i) = retryCount (xs[h := y] ! i)"
  "running (xs[h := (xs[h := y] ! h)\<lparr>slowTimer := b\<rparr>] ! i) = running (xs[h := y] ! i)"
  "exitCode (xs[h := (xs[h := y] ! h)\<lparr>slowTimer := b\<rparr>] ! i) = exitCode (xs[h := y] ! i)"
  using nth_slowTimer_update [of "xs[h := y]" h b i]
  by simp_all

lemma wf_exited: "wellFormed st \<Longrightarrow> i < length (children st) \<Longrightarrow> exitCode (children st ! i) \<noteq> None \<Longrightarrow>
    \<not> running (children st ! i)"
  by (auto simp: wellFormed_def list_all_length)

lemma wf_server: "wellFormed st \<Longrightarrow> serverProcess st = Some h \<Longrightarrow> h < length (children st)"
  by (simp add: wellFormed_def)

lemma killServer_stops_or_times_out:
  "wellFormed st \<Longrightarrow> serverProcess st = Some h \<Longrightarrow>
   \<not> running (children (killServer e st) ! h) \<or> now (killServer e st) = now st + KILL_TIMEOUT"
  by (frule (1) wf_server)
    (auto simp: killServer_Some Let_def dest: wf_exited split: option.splits)

lemma killServer_p2_stops_or_times_out:
  "wellFormed st \<Longrightarrow> serverProcess st = Some h \<Longrightarrow>
   \<not> running (children (killServer_p2 e st) ! h) \<or>
   now (killServer_p2 e st) = now st + KILL_TIMEOUT_p2"
  by (frule (1) wf_server)
    (auto simp: killServer_p2_Some Let_def dest: wf_exited split: option.splits)

lemma startRustServer_state:
  "serverProcess (startRustServer e r st) = Some (length (children st))"
  "children (startRustServer e r st) = children (killServer e st) @
      [\<lparr>pid = pidOf e (length (children st)), exitCode = None, running = True,
        startTime = now (killServer e st) + (if r > 0 then RETRY_WAIT_TIME else STANDARD_WAIT_TIME),
        retryCount = r, isReady = False, stdoutBuffer = [], buildLogs = [], slowTimer = True\<rparr>]"
  "isKilling (startRustServer e r st) = isKilling (killServer e st)"
  "now (startRustServer e r st) = now (killServer e st) + (if r > 0 then RETRY_WAIT_TIME else STANDARD_WAIT_TIME)"
  by (simp_all add: startRustServer.simps Let_def)

lemma startRustServer_p2_state:
  "serverProcess (startRustServer_p2 e r st) = Some (length (children st))"
  "children (startRustServer_p2 e r st) = children (killServer_p2 e st) @
      [\<lparr>pid = pidOf e (length (children st)), exitCode = None, running = True,
        startTime = now (killServer_p2 e st) + (if r > 0 then RETRY_STANDARD_WAIT_TIME_p2 else STANDARD_WAIT_TIME_p2),
        retryCount = r, isReady = False, stdoutBuffer = [], buildLogs = [], slowTimer = True\<rparr>]"
  "isKilling (startRustServer_p2 e r st) = isKilling (killServer_p2 e st)"
  "now (startRustServer_p2 e r st) = now (killServer_p2 e st) + (if r > 0 then RETRY_STANDARD_WAIT_TIME_p2 else STANDARD_WAIT_TIME_p2)"
  by (simp_all add: startRustServer_p2.simps Let_def)

lemma trace_killServer: "trace (killServer e st) = trace st @ killEffects e st"
  by (cases "serverProcess st")
    (auto simp: killServer_None killServer_Some Let_def killEffects_def settled_def
      split: option.splits)

lemma trace_killServer_p2: "trace (killServer_p2 e st) = trace st @ killEffects_p2 e st"
  by (cases "serverProcess st")
    (auto simp: killServer_p2_None killServer_p2_Some Let_def killEffects_p2_def settled_def
      split: option.splits)

lemma trace_startRustServer:
  "trace (startRustServer e r st) =
     trace st @ killEffects e st @
       Sleep (if r > 0 then RETRY_WAIT_TIME else STANDARD_WAIT_TIME) #
       (if r > 0 then [ConsoleLog [Lit ''[Titan] Retrying Rust server (Attempt '', Count r, Lit '')...'']] else []) @
       [Spawn (pidOf e (length (children st)))]"
  by (simp add: startRustServer.simps Let_def trace_killServer)

lemma trace_startRustServer_p2:
  "trace (startRustServer_p2 e r st) =
     trace st @ killEffects_p2 e st @
       [Sleep (if r > 0 then RETRY_STANDARD_WAIT_TIME_p2 else STANDARD_WAIT_TIME_p2),
        StartSpinner ''Stabilizing your app on its orbit...'',
        Spawn (pidOf e (length (children st)))]"
  by (simp add: startRustServer_p2.simps Let_def trace_killServer_p2)

lemma startRustServer_after_kill:
  assumes "wellFormed st"
  shows "let st' = startRustServer e r st;
             w = (if r > 0 then RETRY_WAIT_TIME else STANDARD_WAIT_TIME)
         in children st' \<noteq> [] \<and> running (last (children st')) \<and>
            retryCount (last (children st')) = r \<and>
            trace st' =
              trace st @ killEffects e st @ Sleep w #
              (if r > 0 then [ConsoleLog [Lit ''[Titan] Retrying Rust server (Attempt '', Count r, Lit '')...'']] else []) @
              [Spawn (pid (last (children st')))] \<and>
            (\<forall>h. serverProcess st = Some h \<longrightarrow>
               h < length (children st') \<and>
               (\<not> running (children st' ! h) \<or>
                now st + KILL_TIMEOUT + w \<le> startTime (last (children st'))))"
proof -
  let ?k = "killServer e st"
  let ?st' = "startRustServer e r st"
  let ?n = "length (children st)"
  let ?w = "if r > 0 then RETRY_WAIT_TIME else STANDARD_WAIT_TIME"
  have old: "i < ?n \<Longrightarrow> children ?st' ! i = children ?k ! i" for i
    by (simp add: startRustServer_state nth_append)
  have new: "last (children ?st') = \<lparr>pid = pidOf e ?n, exitCode = None, running = True,
        startTime = now ?k + ?w,
        retryCount = r, isReady = False, stdoutBuffer = [], buildLogs = [], slowTimer = True\<rparr>"
    by (simp add: startRustServer_state)
  have a: "children ?st' \<noteq> [] \<and> running (last (children ?st')) \<and>
      retryCount (last (children ?st')) = r"
    by (simp add: new) (simp add: startRustServer_state)
  have t: "trace ?st' = trace st @ killEffects e st @ Sleep ?w #
      (if r > 0 then [ConsoleLog [Lit ''[Titan] Retrying Rust server (Attempt '', Count r, Lit '')...'']] else []) @
      [Spawn (pid (last (children ?st')))]"
    by (simp add: new trace_startRustServer)
  have b: "h < length (children ?st') \<and>
      (\<not> running (children ?st' ! h) \<or> now st + KILL_TIMEOUT + ?w \<le> startTime (last (children ?st')))"
    if h: "serverProcess st = Some h" for h
  proof -
    from assms h have hn: "h < ?n" by (rule wf_server)
    then have "h < length (children ?st')" by (simp add: startRustServer_state)
    moreover from killServer_stops_or_times_out [OF assms h, of e] hn
    have "\<not> running (children ?st' ! h) \<or> now st + KILL_TIMEOUT + ?w \<le> startTime (last (children ?st'))"
      by (auto simp: old new)
    ultimately show ?thesis ..
  qed
  from a t b show ?thesis by (simp add: Let_def)
qed

lemma startRustServer_p2_after_kill:
  assumes "wellFormed st"
  shows "let st' = startRustServer_p2 e r st;
             w = (if r > 0 then RETRY_STANDARD_WAIT_TIME_p2 else STANDARD_WAIT_TIME_p2)
         in children st' \<noteq> [] \<and> running (last (children st')) \<and>
            retryCount (last (children st')) = r \<and>
            trace st' =
              trace st @ killEffects_p2 e st @
              [Sleep w, StartSpinner ''Stabilizing your app on its orbit...'',
               Spawn (pid (last (children st')))] \<and>
            (\<forall>h. serverProcess st = Some h \<longrightarrow>
               h < length (children st') \<and>
               (\<not> running (children st' ! h) \<or>
                now st + KILL_TIMEOUT_p2 + w \<le> startTime (last (children st'))))"
proof -
  let ?k = "killServer_p2 e st"
  let ?st' = "startRustServer_p2 e r st"
  let ?n = "length (children st)"
  let ?w = "if r > 0 then RETRY_STANDARD_WAIT_TIME_p2 else STANDARD_WAIT_TIME_p2"
  have old: "i < ?n \<Longrightarrow> children ?st' ! i = children ?k ! i" for i
    by (simp add: startRustServer_p2_state nth_append)
  have new: "last (children ?st') = \<lparr>pid = pidOf e ?n, exitCode = None, running = True,
        startTime = now ?k + ?w,
        retryCount = r, isReady = False, stdoutBuffer = [], buildLogs = [], slowTimer = True\<rparr>"
    by (simp add: startRustServer_p2_state)
  have a: "children ?st' \<noteq> [] \<and> running (last (children ?st')) \<and>
      retryCount (last (children ?st')) = r"
    by (simp add: new) (simp add: startRustServer_p2_state)
  have t: "trace ?st' = trace st @ killEffects_p2 e st @
      [Sleep ?w, StartSpinner ''Stabilizing your app on its orbit...'',
       Spawn (pid (last (children ?st')))]"
    by (simp add: new trace_startRustServer_p2)
  have b: "h < length (children ?st') \<and>
      (\<not> running (children ?st' ! h) \<or> now st + KILL_TIMEOUT_p2 + ?w \<le> startTime (last (children ?st')))"
    if h: "serverProcess st = Some h" for h
  proof -
    from assms h have hn: "h < ?n" by (rule wf_server)
    then have "h < length (children ?st')" by (simp add: startRustServer_p2_state)
    moreover from killServer_p2_stops_or_times_out [OF assms h, of e] hn
    have "\<not> running (children ?st' ! h) \<or> now st + KILL_TIMEOUT_p2 + ?w \<le> startTime (last (children ?st'))"
      by (auto simp: old new)
    ultimately show ?thesis ..
  qed
  from a t b show ?thesis by (simp add: Let_def)
qed

lemma env_simps [simp]:
  "platform envHangs = Posix" "groupKillThrows envHangs = False" "closeAfter envHangs = None"
  "pidOf envHangs h = 100 + h" "entryIsTS envHangs = False" "compileError envHangs = None"
  "bundleError envHangs = None"
  "platform envDies = Posix" "groupKillThrows envDies = False" "closeAfter envDies = Some (50, None)"
  "pidOf envDies h = 100 + h" "entryIsTS envDies = False" "compileError envDies = None"
  "bundleError envDies = None"
  "platform envBuildFails = Posix" "groupKillThrows envBuildFails = False"
  "closeAfter envBuildFails = Some (50, None)"
  "pidOf envBuildFails h = 100 + h" "entryIsTS envBuildFails = False"
  "compileError envBuildFails = Some (str ''boom'')"
  "bundleError envBuildFails = None"
  by (simp_all add: envHangs_def envDies_def envBuildFails_def)

lemma killServer_serverUp:
  "killServer envHangs serverUp =
     serverUp\<lparr>trace := [KillGroup 100, RaceSettled TimeoutWon], now := 3000, serverProcess := None\<rparr>"
  "killServer_p2 envHangs serverUp =
     serverUp\<lparr>trace := [ChildKill 0 SIGTERM, RaceSettled TimeoutWon], now := 3000, serverProcess := None\<rparr>"
  "killServer envDies serverUp =
     (closed 0 None serverUp)\<lparr>trace := [KillGroup 100, RaceSettled (CloseWon 50)], now := 50,
                                serverProcess := None\<rparr>"
  "killServer_p2 envDies serverUp =
     (clearSlowTimer 0 (closed 0 None serverUp))\<lparr>trace := [ChildKill 0 SIGTERM, RaceSettled (CloseWon 50)],
                                                   now := 50, serverProcess := None\<rparr>"
  by (simp_all add: killServer_Some killServer_p2_Some Let_def serverUp_simps killCmd_def killCmd_p2_def
      KILL_TIMEOUT_def KILL_TIMEOUT_p2_def closed_def clearSlowTimer_def emit_def)

text \<open>
  C1, as amended.  In every well-formed state and for every retry count,
  \<^verbatim>\<open>startRustServer\<close> spawns the new process only after \<^verbatim>\<open>killServer\<close> has
  returned.  Its trace is: the kill commands for the process that
  \<^verbatim>\<open>serverProcess\<close> held, the end of the wait for it, the delay, and last the
  spawn.  When the new process is created, the process that \<^verbatim>\<open>serverProcess\<close>
  held either is no longer running (it had exited, or its close event came during
  the wait) or the kill timeout has gone by in full before the start time of
  the new process.  The statement is about one invocation taken alone, run
  from its call to its spawn; nothing is said about invocations that overlap in
  time, nor about how many processes are alive.  Both revisions.
\<close>

theorem start_after_kill_completes:
  "wellFormed st \<Longrightarrow>
   (let st' = startRustServer e r st;
        w = (if r > 0 then RETRY_WAIT_TIME else STANDARD_WAIT_TIME)
    in children st' \<noteq> [] \<and> running (last (children st')) \<and>
       retryCount (last (children st')) = r \<and>
       trace st' =
         trace st @ killEffects e st @ Sleep w #
         (if r > 0 then [ConsoleLog [Lit ''[Titan] Retrying Rust server (Attempt '', Count r, Lit '')...'']] else []) @
         [Spawn (pid (last (children st')))] \<and>
       (\<forall>h. serverProcess st = Some h \<longrightarrow>
          h < length (children st') \<and>
          (\<not> running (children st' ! h) \<or>
           now st + KILL_TIMEOUT + w \<le> startTime (last (children st'))))) \<and>
   (let st' = startRustServer_p2 e r st;
        w = (if r > 0 then RETRY_STANDARD_WAIT_TIME_p2 else STANDARD_WAIT_TIME_p2)
    in children st' \<noteq> [] \<and> running (last (children st')) \<and>
       retryCount (last (children st')) = r \<and>
       trace st' =
         trace st @ killEffects_p2 e st @
         [Sleep w, StartSpinner ''Stabilizing your app on its orbit...'',
          Spawn (pid (last (children st')))] \<and>
       (\<forall>h. serverProcess st = Some h \<longrightarrow>
          h < length (children st') \<and>
          (\<not> running (children st' ! h) \<or>
           now st + KILL_TIMEOUT_p2 + w \<le> startTime (last (children st')))))"
  using startRustServer_after_kill [of st e r] startRustServer_p2_after_kill [of st e r] by simp

theorem start_after_kill_completes_witness:
  "wellFormed serverUp \<and> serverProcess serverUp = Some 0 \<and>
   \<not> running (children (startRustServer envDies 0 serverUp) ! 0) \<and>
   trace (startRustServer envDies 0 serverUp) =
     [KillGroup 100, RaceSettled (CloseWon 50), Sleep 1000, Spawn 101] \<and>
   \<not> running (children (startRustServer_p2 envDies 0 serverUp) ! 0) \<and>
   trace (startRustServer_p2 envDies 0 serverUp) =
     [ChildKill 0 SIGTERM, RaceSettled (CloseWon 50), Sleep 200,
      StartSpinner ''Stabilizing your app on its orbit...'', Spawn 101] \<and>
   running (children (startRustServer envHangs 0 serverUp) ! 0) \<and>
   startTime (last (children (startRustServer envHangs 0 serverUp))) = 4000"
  using start_after_kill_completes [of serverUp envDies 0]
    start_after_kill_completes [of serverUp envHangs 0]
  by (simp add: Let_def wellFormed_def serverUp_simps startRustServer_state
      startRustServer_p2_state killServer_serverUp killEffects_def killEffects_p2_def
      settled_def killCmd_def killCmd_p2_def KILL_TIMEOUT_def KILL_TIMEOUT_p2_def
      STANDARD_WAIT_TIME_def STANDARD_WAIT_TIME_p2_def)

text \<open>
  C1 as stated fails: with one server running and a kill that brings no close
  event within the timeout, \<^verbatim>\<open>startRustServer\<close> goes on after 3000 ms and spawns
  the new process while the old one is still alive.
\<close>

theorem kill_timeout_leaves_two_live:
  "liveCount serverUp = 1 \<and>
   liveCount (startRustServer envHangs 0 serverUp) = 2 \<and>
   liveCount (startRustServer_p2 envHangs 0 serverUp) = 2"
  by (simp add: liveCount_def startRustServer_state startRustServer_p2_state killServer_serverUp
      serverUp_simps)

subsection \<open>The order of kill, build and spawn\<close>

lemma rebuild_p2_simps [simp]:
  "serverProcess (rebuild_p2 e st) = serverProcess st"
  "isKilling (rebuild_p2 e st) = isKilling st"
  "children (rebuild_p2 e st) = children st"
  "now (rebuild_p2 e st) = now st"
  by (simp_all add: rebuild_p2_def Let_def split: option.splits)

lemma trace_rebuild_p2:
  "trace (rebuild_p2 e st) =
     trace st @ Build (if entryIsTS e then ''compileTypeScript'' else ''node app/app.js'') #
       (case compileError e of None \<Rightarrow> []
        | Some m \<Rightarrow> [StopSpinner False ''Failed to prepare runtime'',
                     ConsoleLog [Lit ''[Titan] Error: '', Str m]])"
  by (simp add: rebuild_p2_def Let_def split: option.splits)

lemma killEffects_simps [simp]:
  "serverProcess st = None \<Longrightarrow> killEffects e st = []"
  "serverProcess st = None \<Longrightarrow> killEffects_p2 e st = []"
  "killEffects e (emit x st) = killEffects e st"
  "killEffects e (st\<lparr>trace := t\<rparr>) = killEffects e st"
  by (simp_all add: killEffects_def killEffects_p2_def emit_def split: option.splits)

lemma trace_onChange_p2:
  "trace (onChange_p2 e st) =
     trace (killServer_p2 e st) @ Build (if entryIsTS e then ''compileTypeScript'' else ''node app/app.js'') #
       (case compileError e of None \<Rightarrow> []
        | Some m \<Rightarrow> [StopSpinner False ''Failed to prepare runtime'',
                     ConsoleLog [Lit ''[Titan] Error: '', Str m]]) @
       [Sleep STANDARD_WAIT_TIME_p2, StartSpinner ''Stabilizing your app on its orbit...'',
        Spawn (pidOf e (length (children st)))]"
  by (simp add: onChange_p2_def trace_startRustServer_p2 trace_rebuild_p2)




lemma handleFileChange_build_failure:
  "compileError e = Some m \<Longrightarrow>
   children (handleFileChange e path st) = children st \<and>
   serverProcess (handleFileChange e path st) = serverProcess st \<and>
   trace (handleFileChange e path st) =
     trace st @
       [if js_includes path (str ''.env'') then ConsoleLog [Lit ''[Titan] Env Refreshed'']
        else ConsoleLog [Lit ''[Titan] Change detected: '', Str path],
        ConsoleLog [Lit ''[Titan] Regenerating routes.json & action_map.json...''],
        Build ''compileAndRunAppEntry'',
        ConsoleLog [Lit ''[Titan] Build failed -- waiting for changes...''],
        ConsoleError [Str m]]"
  by (simp add: handleFileChange_def rebuild_def Let_def)

lemma initial_simps:
  "serverProcess initial = None" "isKilling initial = False" "now initial = 0"
  "children initial = []" "trace initial = []" "isFirstBoot initial = True"
  by (simp_all add: initial_def)

lemma spawnedWith_rebuild_p2 [simp]: "spawnedWith (rebuild_p2 e st) = spawnedWith st"
  by (simp add: spawnedWith_def)




text \<open>
  C7 at a failing input.  In \<^verbatim>\<open>part_002\<close>, with a Builder that throws (the run
  of \<^verbatim>\<open>node app/app.js\<close> fails with the message \<^verbatim>\<open>boom\<close>), \<^verbatim>\<open>rebuild\<close> reports
  the error and returns; at startup and on a file change the server process is
  spawned all the same.
\<close>

theorem failed_rebuild_still_starts_server_p2:
  "trace (startDev_p2 envBuildFails initial) =
     [Build ''node app/app.js'', StopSpinner False ''Failed to prepare runtime'',
      ConsoleLog [Lit ''[Titan] Error: '', Str (str ''boom'')],
      Sleep 200, StartSpinner ''Stabilizing your app on its orbit...'', Spawn 100] \<and>
   liveCount (startDev_p2 envBuildFails initial) = 1 \<and>
   trace (onChange_p2 envBuildFails serverUp) =
     [ChildKill 0 SIGTERM, RaceSettled (CloseWon 50), Build ''node app/app.js'',
      StopSpinner False ''Failed to prepare runtime'',
      ConsoleLog [Lit ''[Titan] Error: '', Str (str ''boom'')],
      Sleep 200, StartSpinner ''Stabilizing your app on its orbit...'', Spawn 101] \<and>
   spawnedWith (onChange_p2 envBuildFails serverUp) = [0, 0]"
  by (simp add: startDev_p2_def trace_startRustServer_p2 trace_rebuild_p2 trace_onChange_p2
      trace_killServer_p2 serverUp_simps killCmd_p2_def STANDARD_WAIT_TIME_p2_def
      liveCount_def startRustServer_p2_state killServer_p2_None onChange_p2_def
      spawnedWith_serverUp initial_simps killEffects_p2_def settled_def KILL_TIMEOUT_p2_def)

subsection \<open>The debounced watcher\<close>

lemma fireDue_none:
  "\<forall>x \<in> set (pending w). \<not> fst (snd x) \<le> t \<Longrightarrow> fireDue cb t w = w"
proof -
  assume a: "\<forall>x \<in> set (pending w). \<not> fst (snd x) \<le> t"
  then have "filter (\<lambda>(j, d, file). d \<le> t) (pending w) = []"
    by (auto simp: filter_empty_conv)
  moreover from a have "filter (\<lambda>(j, d, file). \<not> d \<le> t) (pending w) = pending w"
    by (auto simp: filter_id_conv)
  ultimately show ?thesis
    by (simp add: fireDue_def)
qed

lemma onAll_replaces:
  "pending w = [(i, d, f0)] \<Longrightarrow> timer w = Some i \<Longrightarrow>
   onAll D t f w = w\<lparr>timer := Some (nextTimer w), pending := [(nextTimer w, t + D, f)],
                       nextTimer := Suc (nextTimer w)\<rparr>"
  by (simp add: onAll_def clearTimeout_def Let_def)

lemma deliver_burst:
  "pending w = [(i, t0 + D, f0)] \<Longrightarrow> timer w = Some i \<Longrightarrow> burst D ((t0, f0) # evs) \<Longrightarrow>
   \<exists>j. pending (deliver D cb evs w) =
         [(j, fst (last ((t0, f0) # evs)) + D, snd (last ((t0, f0) # evs)))] \<and>
       timer (deliver D cb evs w) = Some j \<and> app (deliver D cb evs w) = app w"
proof (induction evs arbitrary: w i t0 f0)
  case Nil
  then show ?case by simp
next
  case (Cons ev evs)
  obtain t f where ev: "ev = (t, f)" by (cases ev)
  from Cons.prems(3) ev have le: "t0 \<le> t" and lt: "t - t0 < D" and rest: "burst D ((t, f) # evs)"
    by simp_all
  from lt Cons.prems(1) have quiet: "fireDue cb t w = w"
    by (intro fireDue_none) simp
  let ?w = "onAll D t f w"
  from Cons.prems(1,2) have w': "?w = w\<lparr>timer := Some (nextTimer w),
      pending := [(nextTimer w, t + D, f)], nextTimer := Suc (nextTimer w)\<rparr>"
    by (rule onAll_replaces)
  then have "pending ?w = [(nextTimer w, t + D, f)]" "timer ?w = Some (nextTimer w)"
    by simp_all
  from Cons.IH [OF this rest] w' ev quiet show ?case
    by simp
qed

lemma runWatcher_burst:
  assumes "evs \<noteq> []" "burst D evs"
  shows "runWatcher D cb evs s = cb (snd (last evs)) (fst (last evs) + D) s"
proof -
  from assms(1) obtain t f evs' where evs: "evs = (t, f) # evs'"
    by (cases evs) auto
  let ?w0 = "\<lparr>timer = None, pending = [], nextTimer = 0, app = s\<rparr>"
  let ?w1 = "onAll D t f (fireDue cb t ?w0)"
  have w1: "?w1 = \<lparr>timer = Some 0, pending = [(0, t + D, f)], nextTimer = Suc 0, app = s\<rparr>"
    by (simp add: fireDue_def onAll_def)
  then have "pending ?w1 = [(0, t + D, f)]" "timer ?w1 = Some 0"
    by simp_all
  from deliver_burst [OF this, where evs = evs' and cb = cb] assms(2) evs
  obtain j where "pending (deliver D cb evs' ?w1) = [(j, fst (last evs) + D, snd (last evs))]"
    and "app (deliver D cb evs' ?w1) = app ?w1"
    by auto
  with w1 evs show ?thesis
    by (simp add: runWatcher_def drain_def)
qed

text \<open>
  C6.  For every burst of one or more watcher events, each less than the
  debounce delay after the one before, the debounced callback runs exactly once,
  one debounce delay after the last event and with the file of the last event:
  the whole run of the watcher is that one run of \<^verbatim>\<open>handleFileChange\<close> (of the
  kill, rebuild and restart callback in \<^verbatim>\<open>part_002\<close>).
\<close>

theorem burst_fires_once:
  "evs \<noteq> [] \<Longrightarrow>
   (burst DEBOUNCE_DELAY evs \<longrightarrow>
      fires DEBOUNCE_DELAY evs = [(fst (last evs) + DEBOUNCE_DELAY, snd (last evs))] \<and>
      createFileWatcher e evs st =
        handleFileChange e (snd (last evs)) (st\<lparr>now := fst (last evs) + DEBOUNCE_DELAY\<rparr>)) \<and>
   (burst DEBOUNCE_DELAY_p2 evs \<longrightarrow>
      fires DEBOUNCE_DELAY_p2 evs = [(fst (last evs) + DEBOUNCE_DELAY_p2, snd (last evs))] \<and>
      watcher_p2 e evs st = onChange_p2 e (st\<lparr>now := fst (last evs) + DEBOUNCE_DELAY_p2\<rparr>))"
  by (simp add: fires_def createFileWatcher_def watcher_p2_def runWatcher_burst)

theorem burst_fires_once_witness:
  "[(0, str ''app/a.js''), (50, str ''app/b.js''), (100, str ''app/c.js'')] \<noteq> [] \<and>
   burst DEBOUNCE_DELAY [(0, str ''app/a.js''), (50, str ''app/b.js''), (100, str ''app/c.js'')] \<and>
   burst DEBOUNCE_DELAY_p2 [(0, str ''app/a.js''), (50, str ''app/b.js''), (100, str ''app/c.js'')] \<and>
   fires DEBOUNCE_DELAY [(0, str ''app/a.js''), (50, str ''app/b.js''), (100, str ''app/c.js'')] =
     [(600, str ''app/c.js'')] \<and>
   fires DEBOUNCE_DELAY_p2 [(0, str ''app/a.js''), (50, str ''app/b.js''), (100, str ''app/c.js'')] =
     [(400, str ''app/c.js'')]"
  using burst_fires_once [of "[(0, str ''app/a.js''), (50, str ''app/b.js''), (100, str ''app/c.js'')]"]
  by (simp add: DEBOUNCE_DELAY_def DEBOUNCE_DELAY_p2_def)

subsection \<open>Crash and retry\<close>

lemma supervise_idle: "idle st \<Longrightarrow> supervise e script st = st"
  by (cases script) (auto simp: idle_def split: option.splits)

lemma supervise_p2_idle: "idle st \<Longrightarrow> supervise_p2 e script st = st"
  by (cases script) (auto simp: idle_def split: option.splits)

lemma supervise_current:
  "current st h r \<Longrightarrow> supervise e ((code, rt) # script) st =
     supervise e script (closeEvent e h code (startTime (children st ! h) + rt) st)"
  by (simp add: current_def)

lemma supervise_p2_current:
  "current st h r \<Longrightarrow> supervise_p2 e ((code, rt) # script) st =
     supervise_p2 e script (closeEvent_p2 e h code (startTime (children st ! h) + rt) st)"
  by (simp add: current_def)

lemma killServer_keeps_flag:
  "\<not> isKilling st \<Longrightarrow> \<not> isKilling (killServer e st)"
  "\<not> isKilling st \<Longrightarrow> \<not> isKilling (killServer_p2 e st)"
  by (cases "serverProcess st";
      simp add: killServer_None killServer_Some killServer_p2_None killServer_p2_Some Let_def)+

lemma current_startRustServer:
  "\<not> isKilling st \<Longrightarrow> current (startRustServer e r st) (length (children st)) r"
  by (simp add: current_def startRustServer_state killServer_keeps_flag nth_append)

lemma current_startRustServer_p2:
  "\<not> isKilling st \<Longrightarrow> current (startRustServer_p2 e r st) (length (children st)) r"
  by (simp add: current_def startRustServer_p2_state killServer_keeps_flag nth_append)

lemma spawnedWith_update [simp]:
  "spawnedWith (st\<lparr>now := t\<rparr>) = spawnedWith st"
  "spawnedWith (st\<lparr>trace := tr\<rparr>) = spawnedWith st"
  "spawnedWith (st\<lparr>isKilling := b\<rparr>) = spawnedWith st"
  "spawnedWith (st\<lparr>serverProcess := p\<rparr>) = spawnedWith st"
  "spawnedWith (st\<lparr>isFirstBoot := b\<rparr>) = spawnedWith st"
  by (simp_all add: spawnedWith_def)

lemma closeEvent_retry:
  assumes cur: "current st h r" and code: "code = Some c" "c \<noteq> 0"
    and rt: "rt < CRASH_DETECTION_WINDOW" and r: "r < MAX_RETRY_ATTEMPTS"
  shows "current (closeEvent e h code (startTime (children st ! h) + rt) st)
           (length (children st)) (Suc r) \<and>
         spawnedWith (closeEvent e h code (startTime (children st ! h) + rt) st) =
           spawnedWith st @ [Suc r]"
proof -
  let ?t0 = "startTime (children st ! h)"
  let ?st1 = "closed h code (st\<lparr>now := ?t0 + rt\<rparr>)"
  let ?st2 = "emit (ConsoleLog [Lit ''[Titan] Server crash detected (possibly file lock). Retrying automatically...''])
          (emit (ConsoleLog [Lit ''[Titan] Rust server exited: '', ExitCode code]) ?st1)"
  from cur have nk: "\<not> isKilling ?st1" and rc: "retryCount (children st ! h) = r"
    by (simp_all add: current_def)
  from rt have "now ?st1 - ?t0 < CRASH_DETECTION_WINDOW" by simp
  with nk code r have "handleServerClose e code ?t0 r ?st1 = startRustServer e (r + 1) ?st2"
    by (intro handleServerClose_retry) simp_all
  then have eq: "closeEvent e h code (?t0 + rt) st = startRustServer e (Suc r) ?st2"
    by (simp add: closeEvent_def rc)
  from nk have "current (startRustServer e (Suc r) ?st2) (length (children ?st2)) (Suc r)"
    by (intro current_startRustServer) simp
  with eq show ?thesis by simp
qed

lemma closeEvent_stop:
  assumes cur: "current st h r"
    and no: "\<not> (code \<noteq> Some 0 \<and> code \<noteq> None \<and> rt < CRASH_DETECTION_WINDOW \<and> r < MAX_RETRY_ATTEMPTS)"
  shows "idle (closeEvent e h code (startTime (children st ! h) + rt) st) \<and>
         spawnedWith (closeEvent e h code (startTime (children st ! h) + rt) st) = spawnedWith st"
proof -
  let ?t0 = "startTime (children st ! h)"
  let ?st1 = "closed h code (st\<lparr>now := ?t0 + rt\<rparr>)"
  from cur have nk: "\<not> isKilling ?st1" and rc: "retryCount (children st ! h) = r"
    and h: "h < length (children st)" and sp: "serverProcess st = Some h"
    by (simp_all add: current_def)
  from no have "\<not> (code \<noteq> Some 0 \<and> code \<noteq> None \<and> now ?st1 - ?t0 < CRASH_DETECTION_WINDOW \<and>
      r < MAX_RETRY_ATTEMPTS)" by simp
  with nk have "handleServerClose e code ?t0 r ?st1 =
      emit (ConsoleLog [Lit ''[Titan] Rust server exited: '', ExitCode code]) ?st1"
    by (rule handleServerClose_no_retry)
  then have eq: "closeEvent e h code (?t0 + rt) st =
      emit (ConsoleLog [Lit ''[Titan] Rust server exited: '', ExitCode code]) ?st1"
    by (simp add: closeEvent_def rc)
  from nk h sp show ?thesis
    by (simp add: eq idle_def)
qed

lemma crash_run:
  "crashesWithin CRASH_DETECTION_WINDOW script \<Longrightarrow> current st h r \<Longrightarrow>
   r \<le> MAX_RETRY_ATTEMPTS \<Longrightarrow> MAX_RETRY_ATTEMPTS - r < length script \<Longrightarrow>
   spawnedWith (supervise e script st) = spawnedWith st @ [Suc r..<Suc MAX_RETRY_ATTEMPTS] \<and>
   idle (supervise e script st)"
proof (induction script arbitrary: st h r)
  case Nil
  then show ?case by simp
next
  case (Cons x script)
  obtain code rt where x: "x = (code, rt)" by (cases x)
  from Cons.prems(1) x have code: "code = Some 1" and rt: "rt < CRASH_DETECTION_WINDOW"
    and rest: "crashesWithin CRASH_DETECTION_WINDOW script"
    by (simp_all add: crashesWithin_def)
  let ?st1 = "closeEvent e h code (startTime (children st ! h) + rt) st"
  from Cons.prems(2) have unfold: "supervise e (x # script) st = supervise e script ?st1"
    unfolding x by (rule supervise_current)
  show ?case
  proof (cases "r < MAX_RETRY_ATTEMPTS")
    case True
    with Cons.prems(2) code rt
    have cur: "current ?st1 (length (children st)) (Suc r)"
      and sw: "spawnedWith ?st1 = spawnedWith st @ [Suc r]"
      using closeEvent_retry [of st h r code 1 rt e] by simp_all
    from True Cons.prems(4) have "MAX_RETRY_ATTEMPTS - Suc r < length script" by simp
    with Cons.IH [OF rest cur] True
    have "spawnedWith (supervise e script ?st1) =
        spawnedWith ?st1 @ [Suc (Suc r)..<Suc MAX_RETRY_ATTEMPTS] \<and>
        idle (supervise e script ?st1)"
      by simp
    with sw unfold True show ?thesis
      by (simp add: upt_conv_Cons)
  next
    case False
    with Cons.prems(2)
    have "idle ?st1 \<and> spawnedWith ?st1 = spawnedWith st"
      by (intro closeEvent_stop) auto
    with unfold False Cons.prems(3) show ?thesis
      by (simp add: supervise_idle)
  qed
qed

lemma current_startRustServer_p2_at:
  "\<not> isKilling st \<Longrightarrow> length (children st) = n \<Longrightarrow> current (startRustServer_p2 e r st) n r"
  using current_startRustServer_p2 [of st e r] by simp

lemma closeEvent_p2_retry:
  assumes cur: "current st h r" and code: "code = Some c" "c \<noteq> 0"
    and rt: "rt < CRASH_DETECTION_WINDOW_p2" and r: "r < MAX_RETRY_ATTEMPTS_p2"
  shows "current (closeEvent_p2 e h code (startTime (children st ! h) + rt) st)
           (length (children st)) (Suc r) \<and>
         spawnedWith (closeEvent_p2 e h code (startTime (children st ! h) + rt) st) =
           spawnedWith st @ [Suc r]"
proof -
  from cur have nk: "\<not> isKilling st" and rc: "retryCount (children st ! h) = r"
    by (simp_all add: current_def)
  with code rt r show ?thesis
    by (simp add: closeEvent_p2_def onClose_p2.simps Let_def current_startRustServer_p2_at)
qed

lemma closeEvent_p2_stop:
  assumes cur: "current st h r"
    and no: "\<not> (code \<noteq> Some 0 \<and> code \<noteq> None \<and> rt < CRASH_DETECTION_WINDOW_p2 \<and> r < MAX_RETRY_ATTEMPTS_p2)"
  shows "idle (closeEvent_p2 e h code (startTime (children st ! h) + rt) st) \<and>
         spawnedWith (closeEvent_p2 e h code (startTime (children st ! h) + rt) st) = spawnedWith st"
proof -
  from cur have nk: "\<not> isKilling st" and rc: "retryCount (children st ! h) = r"
    and h: "h < length (children st)" and sp: "serverProcess st = Some h"
    by (simp_all add: current_def)
  with no show ?thesis
    by (auto simp add: closeEvent_p2_def onClose_p2.simps Let_def idle_def)
qed

lemma crash_run_p2:
  "crashesWithin CRASH_DETECTION_WINDOW_p2 script \<Longrightarrow> current st h r \<Longrightarrow>
   r \<le> MAX_RETRY_ATTEMPTS_p2 \<Longrightarrow> MAX_RETRY_ATTEMPTS_p2 - r < length script \<Longrightarrow>
   spawnedWith (supervise_p2 e script st) = spawnedWith st @ [Suc r..<Suc MAX_RETRY_ATTEMPTS_p2] \<and>
   idle (supervise_p2 e script st)"
proof (induction script arbitrary: st h r)
  case Nil
  then show ?case by simp
next
  case (Cons x script)
  obtain code rt where x: "x = (code, rt)" by (cases x)
  from Cons.prems(1) x have code: "code = Some 1" and rt: "rt < CRASH_DETECTION_WINDOW_p2"
    and rest: "crashesWithin CRASH_DETECTION_WINDOW_p2 script"
    by (simp_all add: crashesWithin_def)
  let ?st1 = "closeEvent_p2 e h code (startTime (children st ! h) + rt) st"
  from Cons.prems(2) have unfold: "supervise_p2 e (x # script) st = supervise_p2 e script ?st1"
    unfolding x by (rule supervise_p2_current)
  show ?case
  proof (cases "r < MAX_RETRY_ATTEMPTS_p2")
    case True
    with Cons.prems(2) code rt
    have cur: "current ?st1 (length (children st)) (Suc r)"
      and sw: "spawnedWith ?st1 = spawnedWith st @ [Suc r]"
      using closeEvent_p2_retry [of st h r code 1 rt e] by simp_all
    from True Cons.prems(4) have "MAX_RETRY_ATTEMPTS_p2 - Suc r < length script" by simp
    with Cons.IH [OF rest cur] True
    have "spawnedWith (supervise_p2 e script ?st1) =
        spawnedWith ?st1 @ [Suc (Suc r)..<Suc MAX_RETRY_ATTEMPTS_p2] \<and>
        idle (supervise_p2 e script ?st1)"
      by simp
    with sw unfold True show ?thesis
      by (simp add: upt_conv_Cons)
  next
    case False
    with Cons.prems(2)
    have "idle ?st1 \<and> spawnedWith ?st1 = spawnedWith st"
      by (intro closeEvent_p2_stop) auto
    with unfold False Cons.prems(3) show ?thesis
      by (simp add: supervise_p2_idle)
  qed
qed

text \<open>
  C4.  Start the server with retry count 0 and let every server process exit
  with code 1 inside the crash-detection window.  Then the processes spawned
  are exactly those with retry counts 0, 1, \<dots>, \<^verbatim>\<open>MAX_RETRY_ATTEMPTS\<close>: the first
  start and \<^verbatim>\<open>MAX_RETRY_ATTEMPTS\<close> automatic retries.  After the last one has
  exited nothing is restarted, however long the script goes on; the supervisor
  is idle.  For \<^verbatim>\<open>dev.js\<close> (3 retries) and \<^verbatim>\<open>part_002\<close> (5 retries).
\<close>

theorem crash_loop_retries_exactly_max:
  "\<not> isKilling st \<Longrightarrow>
   (crashesWithin CRASH_DETECTION_WINDOW script \<and> MAX_RETRY_ATTEMPTS < length script \<longrightarrow>
      spawnedWith (supervise e script (startRustServer e 0 st)) =
        spawnedWith st @ [0..<Suc MAX_RETRY_ATTEMPTS] \<and>
      idle (supervise e script (startRustServer e 0 st))) \<and>
   (crashesWithin CRASH_DETECTION_WINDOW_p2 script \<and> MAX_RETRY_ATTEMPTS_p2 < length script \<longrightarrow>
      spawnedWith (supervise_p2 e script (startRustServer_p2 e 0 st)) =
        spawnedWith st @ [0..<Suc MAX_RETRY_ATTEMPTS_p2] \<and>
      idle (supervise_p2 e script (startRustServer_p2 e 0 st)))"
proof (intro conjI impI)
  assume nk: "\<not> isKilling st"
  { assume a: "crashesWithin CRASH_DETECTION_WINDOW script \<and> MAX_RETRY_ATTEMPTS < length script"
    from nk have "current (startRustServer e 0 st) (length (children st)) 0"
      by (rule current_startRustServer)
    with a have *: "spawnedWith (supervise e script (startRustServer e 0 st)) =
        spawnedWith (startRustServer e 0 st) @ [Suc 0..<Suc MAX_RETRY_ATTEMPTS] \<and>
        idle (supervise e script (startRustServer e 0 st))"
      by (intro crash_run) simp_all
    then show "spawnedWith (supervise e script (startRustServer e 0 st)) =
        spawnedWith st @ [0..<Suc MAX_RETRY_ATTEMPTS]"
      by (simp add: upt_conv_Cons)
    from * show "idle (supervise e script (startRustServer e 0 st))" by simp }
  { assume a: "crashesWithin CRASH_DETECTION_WINDOW_p2 script \<and> MAX_RETRY_ATTEMPTS_p2 < length script"
    from nk have "current (startRustServer_p2 e 0 st) (length (children st)) 0"
      by (rule current_startRustServer_p2)
    with a have *: "spawnedWith (supervise_p2 e script (startRustServer_p2 e 0 st)) =
        spawnedWith (startRustServer_p2 e 0 st) @ [Suc 0..<Suc MAX_RETRY_ATTEMPTS_p2] \<and>
        idle (supervise_p2 e script (startRustServer_p2 e 0 st))"
      by (intro crash_run_p2) simp_all
    then show "spawnedWith (supervise_p2 e script (startRustServer_p2 e 0 st)) =
        spawnedWith st @ [0..<Suc MAX_RETRY_ATTEMPTS_p2]"
      by (simp add: upt_conv_Cons)
    from * show "idle (supervise_p2 e script (startRustServer_p2 e 0 st))" by simp }
qed

theorem crash_loop_retries_exactly_max_witness:
  "\<not> isKilling initial \<and>
   crashesWithin CRASH_DETECTION_WINDOW
     [(Some 1, 100), (Some 1, 100), (Some 1, 100), (Some 1, 100), (Some 1, 100), (Some 1, 100), (Some 1, 100)] \<and>
   crashesWithin CRASH_DETECTION_WINDOW_p2
     [(Some 1, 100), (Some 1, 100), (Some 1, 100), (Some 1, 100), (Some 1, 100), (Some 1, 100), (Some 1, 100)] \<and>
   spawnedWith (supervise envDies
     [(Some 1, 100), (Some 1, 100), (Some 1, 100), (Some 1, 100), (Some 1, 100), (Some 1, 100), (Some 1, 100)]
     (startRustServer envDies 0 initial)) = [0, 1, 2, 3] \<and>
   spawnedWith (supervise_p2 envDies
     [(Some 1, 100), (Some 1, 100), (Some 1, 100), (Some 1, 100), (Some 1, 100), (Some 1, 100), (Some 1, 100)]
     (startRustServer_p2 envDies 0 initial)) = [0, 1, 2, 3, 4, 5]"
  using crash_loop_retries_exactly_max [of initial
      "[(Some 1, 100), (Some 1, 100), (Some 1, 100), (Some 1, 100), (Some 1, 100), (Some 1, 100), (Some 1, 100)]"
      envDies]
  by (simp add: crashesWithin_def initial_simps spawnedWith_def MAX_RETRY_ATTEMPTS_def
      MAX_RETRY_ATTEMPTS_p2_def CRASH_DETECTION_WINDOW_def CRASH_DETECTION_WINDOW_p2_def
      upt_conv_Cons)

subsection \<open>The output of the server process\<close>

lemma map_update_same:
  "f c = f (xs ! h) \<Longrightarrow> map f (xs[h := c]) = map f xs"
proof (cases "h < length xs")
  case True
  assume "f c = f (xs ! h)"
  with True show ?thesis
    by (simp add: map_update list_update_same_conv)
next
  case False
  then show ?thesis
    by (simp add: list_update_beyond)
qed

lemma control_simps [simp]:
  "control (emit x st) = control st"
  "control (st\<lparr>isFirstBoot := b\<rparr>) = control st"
  "control (st\<lparr>trace := tr\<rparr>) = control st"
  by (simp_all add: control_def)

lemma control_children_update:
  "running c = running (children st ! h) \<Longrightarrow> retryCount c = retryCount (children st ! h) \<Longrightarrow>
   control (st\<lparr>children := (children st)[h := c]\<rparr>) = control st"
  by (simp add: control_def map_update_same)

lemma fold_emit_children [simp]:
  "children (fold (\<lambda>line s. if P line then emit (X line) s else s) ls st) = children st"
  by (induction ls arbitrary: st) simp_all

lemma fold_emit_control [simp]:
  "control (fold (\<lambda>line s. if P line then emit (X line) s else s) ls st) = control st"
  by (induction ls arbitrary: st) simp_all

lemma control_onStderr_p2 [simp]: "control (onStderr_p2 h d st) = control st"
  by (simp add: onStderr_p2_def Let_def control_children_update)

lemma control_onStdout_p2 [simp]: "control (onStdout_p2 h d st) = control st"
  by (simp add: onStdout_p2_def Let_def control_children_update)

lemma control_feed_p2 [simp]: "control (feed_p2 h cs st) = control st"
  by (induction h cs st rule: feed_p2.induct) simp_all

lemma current_control: "control st = control st' \<Longrightarrow> current st h r = current st' h r"
proof -
  assume c: "control st = control st'"
  then have m: "map (\<lambda>c. (running c, retryCount c)) (children st) =
      map (\<lambda>c. (running c, retryCount c)) (children st')"
    and s: "serverProcess st = serverProcess st'" and k: "isKilling st = isKilling st'"
    by (simp_all add: control_def)
  from m have l: "length (children st) = length (children st')"
    by (rule map_eq_imp_length_eq)
  have "h < length (children st) \<Longrightarrow>
      (running (children st ! h), retryCount (children st ! h)) =
      (running (children st' ! h), retryCount (children st' ! h))"
  proof -
    assume h: "h < length (children st)"
    with l have h': "h < length (children st')" by simp
    from m have "map (\<lambda>c. (running c, retryCount c)) (children st) ! h =
        map (\<lambda>c. (running c, retryCount c)) (children st') ! h" by simp
    with h h' show ?thesis by simp
  qed
  with s k l show ?thesis
    by (auto simp: current_def)
qed

lemma spawnedWith_control: "control st = control st' \<Longrightarrow> spawnedWith st = spawnedWith st'"
proof -
  assume "control st = control st'"
  then have "map snd (map (\<lambda>c. (running c, retryCount c)) (children st)) =
      map snd (map (\<lambda>c. (running c, retryCount c)) (children st'))"
    by (simp add: control_def)
  then show ?thesis
    by (simp add: spawnedWith_def comp_def)
qed

lemma dumps_append [simp]: "dumps (xs @ ys) = dumps xs @ dumps ys"
  by (induction xs rule: dumps.induct) simp_all

lemma stderrWrites_append [simp]: "stderrWrites (xs @ ys) = stderrWrites xs @ stderrWrites ys"
  by (induction xs rule: stderrWrites.induct) simp_all

lemma fold_stdout_trace [simp]:
  "stderrWrites (trace (fold (\<lambda>line s. if P line then emit (StdoutWrite (g line)) s else s) ls st)) =
     stderrWrites (trace st)"
  "dumps (trace (fold (\<lambda>line s. if P line then emit (StdoutWrite (g line)) s else s) ls st)) =
     dumps (trace st)"
  by (induction ls arbitrary: st) simp_all

lemma onStderr_p2_step:
  "h < length (children st) \<Longrightarrow>
   length (children (onStderr_p2 h d st)) = length (children st) \<and>
   isReady (children (onStderr_p2 h d st) ! h) = isReady (children st ! h) \<and>
   stdoutBuffer (children (onStderr_p2 h d st) ! h) = stdoutBuffer (children st ! h) \<and>
   buildLogs (children (onStderr_p2 h d st) ! h) =
     (if isReady (children st ! h) then buildLogs (children st ! h)
      else buildLogs (children st ! h) @ d) \<and>
   stderrWrites (trace (onStderr_p2 h d st)) =
     stderrWrites (trace st) @ (if isReady (children st ! h) then [d] else []) \<and>
   dumps (trace (onStderr_p2 h d st)) = dumps (trace st)"
  by (simp add: onStderr_p2_def Let_def)

lemma onStdout_p2_step:
  "h < length (children st) \<Longrightarrow>
   length (children (onStdout_p2 h d st)) = length (children st) \<and>
   isReady (children (onStdout_p2 h d st) ! h) =
     (isReady (children st ! h) \<or> hasBanner (stdoutBuffer (children st ! h) @ d)) \<and>
   stdoutBuffer (children (onStdout_p2 h d st) ! h) =
     (if isReady (children st ! h) then stdoutBuffer (children st ! h)
      else if hasBanner (stdoutBuffer (children st ! h) @ d) then []
      else stdoutBuffer (children st ! h) @ d) \<and>
   buildLogs (children (onStdout_p2 h d st) ! h) = buildLogs (children st ! h) \<and>
   stderrWrites (trace (onStdout_p2 h d st)) = stderrWrites (trace st) \<and>
   dumps (trace (onStdout_p2 h d st)) = dumps (trace st)"
  by (simp add: onStdout_p2_def Let_def hasBanner_def)

lemma feed_p2_ready:
  "h < length (children st) \<Longrightarrow> isReady (children st ! h) \<Longrightarrow>
   length (children (feed_p2 h cs st)) = length (children st) \<and>
   isReady (children (feed_p2 h cs st) ! h) \<and>
   buildLogs (children (feed_p2 h cs st) ! h) = buildLogs (children st ! h) \<and>
   stderrWrites (trace (feed_p2 h cs st)) = stderrWrites (trace st) @ [x. Err x \<leftarrow> cs] \<and>
   dumps (trace (feed_p2 h cs st)) = dumps (trace st)"
proof (induction h cs st rule: feed_p2.induct)
  case (1 h st)
  then show ?case by simp
next
  case (2 h d cs st)
  from onStdout_p2_step [OF "2.prems"(1), of d] "2.prems" "2.IH" show ?case
    by simp
next
  case (3 h d cs st)
  from onStderr_p2_step [OF "3.prems"(1), of d] "3.prems" "3.IH" show ?case
    by simp
qed

lemma feed_p2_not_ready:
  "h < length (children st) \<Longrightarrow> \<not> isReady (children st ! h) \<Longrightarrow>
   length (children (feed_p2 h cs st)) = length (children st) \<and>
   isReady (children (feed_p2 h cs st) ! h) = becomesReady (stdoutBuffer (children st ! h)) cs \<and>
   buildLogs (children (feed_p2 h cs st) ! h) =
     buildLogs (children st ! h) @ stderrBeforeReady (stdoutBuffer (children st ! h)) cs \<and>
   stderrWrites (trace (feed_p2 h cs st)) =
     stderrWrites (trace st) @ stderrAfterReady (stdoutBuffer (children st ! h)) cs \<and>
   dumps (trace (feed_p2 h cs st)) = dumps (trace st)"
proof (induction h cs st rule: feed_p2.induct)
  case (1 h st)
  then show ?case by simp
next
  case (2 h d cs st)
  note step = onStdout_p2_step [OF "2.prems"(1), of d]
  show ?case
  proof (cases "hasBanner (stdoutBuffer (children st ! h) @ d)")
    case True
    with step "2.prems" feed_p2_ready [of h "onStdout_p2 h d st" cs] show ?thesis
      by simp
  next
    case False
    with step "2.prems" "2.IH" show ?thesis
      by simp
  qed
next
  case (3 h d cs st)
  from onStderr_p2_step [OF "3.prems"(1), of d] "3.prems" "3.IH" show ?case
    by simp
qed

lemma trace_fold_emit:
  "trace (fold (\<lambda>line s. if P line then emit (X line) s else s) ls st) =
     trace st @ map X (filter P ls)"
  by (induction ls arbitrary: st) simp_all

lemma trace_onStderr_p2:
  "trace (onStderr_p2 h d st) =
     trace st @ (if isReady (children st ! h) then [StderrWrite d] else [])"
  by (simp add: onStderr_p2_def Let_def)

lemma trace_onStdout_p2:
  "trace (onStdout_p2 h d st) =
     trace st @
       (if isReady (children st ! h) then [StdoutWrite d]
        else if hasBanner (stdoutBuffer (children st ! h) @ d)
             then bannerOutput (isFirstBoot st) (stdoutBuffer (children st ! h) @ d)
             else [])"
  by (simp add: onStdout_p2_def Let_def hasBanner_def bannerOutput_def trace_fold_emit)

lemma isFirstBoot_output_p2:
  "isFirstBoot (onStderr_p2 h d st) = isFirstBoot st"
  "\<not> isReady (children st ! h) \<Longrightarrow> \<not> hasBanner (stdoutBuffer (children st ! h) @ d) \<Longrightarrow>
   isFirstBoot (onStdout_p2 h d st) = isFirstBoot st"
  by (simp_all add: onStderr_p2_def onStdout_p2_def Let_def hasBanner_def)

lemma trace_feed_p2_ready:
  "h < length (children st) \<Longrightarrow> isReady (children st ! h) \<Longrightarrow>
   trace (feed_p2 h cs st) = trace st @ map echo cs"
proof (induction h cs st rule: feed_p2.induct)
  case (1 h st)
  then show ?case by simp
next
  case (2 h d cs st)
  from onStdout_p2_step [OF "2.prems"(1), of d] "2.prems" "2.IH" show ?case
    by (simp add: trace_onStdout_p2)
next
  case (3 h d cs st)
  from onStderr_p2_step [OF "3.prems"(1), of d] "3.prems" "3.IH" show ?case
    by (simp add: trace_onStderr_p2)
qed

lemma trace_feed_p2_not_ready:
  "h < length (children st) \<Longrightarrow> \<not> isReady (children st ! h) \<Longrightarrow>
   trace (feed_p2 h cs st) =
     trace st @ printed (isFirstBoot st) (stdoutBuffer (children st ! h)) cs"
proof (induction h cs st rule: feed_p2.induct)
  case (1 h st)
  then show ?case by simp
next
  case (2 h d cs st)
  note step = onStdout_p2_step [OF "2.prems"(1), of d]
  show ?case
  proof (cases "hasBanner (stdoutBuffer (children st ! h) @ d)")
    case True
    with step "2.prems" trace_feed_p2_ready [of h "onStdout_p2 h d st" cs] show ?thesis
      by (simp add: trace_onStdout_p2)
  next
    case False
    with step "2.prems" "2.IH" show ?thesis
      by (simp add: trace_onStdout_p2 isFirstBoot_output_p2)
  qed
next
  case (3 h d cs st)
  from onStderr_p2_step [OF "3.prems"(1), of d] "3.prems" "3.IH" show ?case
    by (simp add: trace_onStderr_p2 isFirstBoot_output_p2)
qed

lemma printed_not_ready: "\<not> becomesReady buf cs \<Longrightarrow> printed fb buf cs = []"
  by (induction buf cs rule: becomesReady.induct) simp_all

lemma dumps_killCmd_p2 [simp]: "dumps (killCmd_p2 e p h) = []"
  by (simp add: killCmd_p2_def)

lemma dumps_killServer_p2 [simp]: "dumps (trace (killServer_p2 e st)) = dumps (trace st)"
  by (simp add: trace_killServer_p2 killEffects_p2_def split: option.splits)

lemma dumps_startRustServer_p2 [simp]:
  "dumps (trace (startRustServer_p2 e r st)) = dumps (trace st)"
  by (simp add: trace_startRustServer_p2 killEffects_p2_def split: option.splits)

lemma dumps_onClose_p2:
  "dumps (trace (onClose_p2 e h code st)) =
     dumps (trace st) @
       (if \<not> isKilling st \<and> code \<noteq> Some 0 \<and> code \<noteq> None \<and> \<not> isReady (children st ! h)
        then [buildLogs (children st ! h)] else [])"
  by (simp add: onClose_p2.simps Let_def)

lemma dumps_closeEvent_p2:
  "dumps (trace (closeEvent_p2 e h code t st)) =
     dumps (trace st) @
       (if \<not> isKilling st \<and> code \<noteq> Some 0 \<and> code \<noteq> None \<and> \<not> isReady (children st ! h)
        then [buildLogs (children st ! h)] else [])"
  by (simp add: closeEvent_p2_def dumps_onClose_p2)

lemma no_output_killEffects_p2: "list_all (\<lambda>x. \<not> isOutput x) (killEffects_p2 e st)"
  by (simp add: killEffects_p2_def killCmd_p2_def split: option.splits)

lemma trace_onClose_p2:
  "\<exists>restart.
     trace (onClose_p2 e h code st) =
       trace st @
       (if \<not> isKilling st \<and> code \<noteq> Some 0 \<and> code \<noteq> None
        then StopSpinner False ''Orbit stabilization failed'' #
             (if \<not> isReady (children st ! h)
              then [ConsoleLog [Lit ''--- Build Logs ---''],
                    ConsoleLog [Str (buildLogs (children st ! h))],
                    ConsoleLog [Lit ''------------------'']]
              else [])
        else []) @ restart \<and>
     list_all (\<lambda>x. \<not> isOutput x) restart"
  by (simp add: onClose_p2.simps Let_def trace_startRustServer_p2 no_output_killEffects_p2)

lemma trace_closeEvent_p2:
  "\<exists>restart.
     trace (closeEvent_p2 e h code t st) =
       trace st @
       (if \<not> isKilling st \<and> code \<noteq> Some 0 \<and> code \<noteq> None
        then StopSpinner False ''Orbit stabilization failed'' #
             (if \<not> isReady (children st ! h)
              then [ConsoleLog [Lit ''--- Build Logs ---''],
                    ConsoleLog [Str (buildLogs (children st ! h))],
                    ConsoleLog [Lit ''------------------'']]
              else [])
        else []) @ restart \<and>
     list_all (\<lambda>x. \<not> isOutput x) restart"
  using trace_onClose_p2 [of e h code "closed h code (st\<lparr>now := t\<rparr>)"]
  by (simp add: closeEvent_p2_def cong: if_cong)

text \<open>
  C9, as amended (\<^verbatim>\<open>part_002\<close>).  Take a process that is not ready yet, any
  sequence of output chunks, and then its close event.  Until the readiness
  banner is complete in the accumulated \<^verbatim>\<open>stdout\<close>, every \<^verbatim>\<open>stderr\<close> chunk is
  appended to \<^verbatim>\<open>buildLogs\<close> and nothing at all is emitted: the trace of the
  listeners is \<^verbatim>\<open>printed\<close>, which is empty as long as no banner is complete, and
  in which the \<^verbatim>\<open>stderr\<close> chunks before the banner never appear.  Only the chunks
  after the banner are written to \<^verbatim>\<open>stderr\<close>.  At the close event the buffer is
  dumped, once and whole, between its two header lines, exactly when the exit
  code is an integer other than zero, no \<^verbatim>\<open>killServer\<close> is under way, and the
  process has not become ready.  A process that has become ready, one that a
  signal ended (exit code \<^verbatim>\<open>null\<close>), and one closed during \<^verbatim>\<open>killServer\<close> dump
  nothing.  What follows the report in the trace of the close event (the
  restart) has no output.
\<close>

theorem stderr_buffered_until_ready:
  "h < length (children st) \<Longrightarrow> \<not> isReady (children st ! h) \<Longrightarrow>
   (let b = stdoutBuffer (children st ! h);
        st1 = feed_p2 h cs st;
        st2 = closeEvent_p2 e h code t st1;
        logs = buildLogs (children st ! h) @ stderrBeforeReady b cs;
        failure = (\<not> isKilling st \<and> code \<noteq> Some 0 \<and> code \<noteq> None)
    in isReady (children st1 ! h) = becomesReady b cs \<and>
       buildLogs (children st1 ! h) = logs \<and>
       trace st1 = trace st @ printed (isFirstBoot st) b cs \<and>
       (\<not> becomesReady b cs \<longrightarrow> trace st1 = trace st) \<and>
       stderrWrites (trace st1) = stderrWrites (trace st) @ stderrAfterReady b cs \<and>
       dumps (trace st1) = dumps (trace st) \<and>
       (\<exists>restart.
          trace st2 =
            trace st1 @
            (if failure
             then StopSpinner False ''Orbit stabilization failed'' #
                  (if \<not> becomesReady b cs
                   then [ConsoleLog [Lit ''--- Build Logs ---''],
                         ConsoleLog [Str logs],
                         ConsoleLog [Lit ''------------------'']]
                   else [])
             else []) @ restart \<and>
          list_all (\<lambda>x. \<not> isOutput x) restart) \<and>
       dumps (trace st2) =
         dumps (trace st) @ (if failure \<and> \<not> becomesReady b cs then [logs] else []))"
proof -
  assume h: "h < length (children st)" and nr: "\<not> isReady (children st ! h)"
  note f = feed_p2_not_ready [OF h nr, of cs]
  note tr = trace_feed_p2_not_ready [OF h nr, of cs]
  have k: "isKilling (feed_p2 h cs st) = isKilling st"
    using control_feed_p2 [of h cs st] by (simp add: control_def)
  have p: "\<not> becomesReady (stdoutBuffer (children st ! h)) cs \<longrightarrow> trace (feed_p2 h cs st) = trace st"
    by (simp add: tr printed_not_ready)
  from trace_closeEvent_p2 [of e h code t "feed_p2 h cs st"] f k
  have c: "\<exists>restart.
      trace (closeEvent_p2 e h code t (feed_p2 h cs st)) =
        trace (feed_p2 h cs st) @
        (if \<not> isKilling st \<and> code \<noteq> Some 0 \<and> code \<noteq> None
         then StopSpinner False ''Orbit stabilization failed'' #
              (if \<not> becomesReady (stdoutBuffer (children st ! h)) cs
               then [ConsoleLog [Lit ''--- Build Logs ---''],
                     ConsoleLog [Str (buildLogs (children st ! h) @
                        stderrBeforeReady (stdoutBuffer (children st ! h)) cs)],
                     ConsoleLog [Lit ''------------------'']]
               else [])
         else []) @ restart \<and>
      list_all (\<lambda>x. \<not> isOutput x) restart"
    by (simp cong: if_cong)
  have d: "dumps (trace (closeEvent_p2 e h code t (feed_p2 h cs st))) =
      dumps (trace st) @
        (if (\<not> isKilling st \<and> code \<noteq> Some 0 \<and> code \<noteq> None) \<and>
            \<not> becomesReady (stdoutBuffer (children st ! h)) cs
         then [buildLogs (children st ! h) @ stderrBeforeReady (stdoutBuffer (children st ! h)) cs]
         else [])"
    using f k by (simp add: dumps_closeEvent_p2)
  from f tr p c d show ?thesis
    unfolding Let_def by (intro conjI) simp_all
qed

theorem stderr_buffered_until_ready_witness:
  "0 < length (children serverUp) \<and> \<not> isReady (children serverUp ! 0) \<and>
   \<not> isKilling serverUp \<and>
   trace (feed_p2 0 [Err (str ''warn''), Out (str ''x''), Err (str ''err'')] serverUp) = [] \<and>
   buildLogs (children (feed_p2 0 [Err (str ''warn''), Out (str ''x''), Err (str ''err'')] serverUp) ! 0) =
     str ''warn'' @ str ''err'' \<and>
   dumps (trace (closeEvent_p2 envDies 0 (Some 1) 100
     (feed_p2 0 [Err (str ''warn''), Out (str ''x''), Err (str ''err'')] serverUp))) =
     [str ''warn'' @ str ''err''] \<and>
   trace (feed_p2 0 [Err (str ''warn''), Out banner_running, Err (str ''late'')] serverUp) =
     [StopSpinner True ''Your app is now orbiting Titan Planet'', StdoutWrite banner_running,
      StderrWrite (str ''late'')] \<and>
   dumps (trace (closeEvent_p2 envDies 0 (Some 1) 100
     (feed_p2 0 [Err (str ''warn''), Out banner_running, Err (str ''late'')] serverUp))) = []"
  using stderr_buffered_until_ready [where st = serverUp and h = 0 and e = envDies and code = "Some 1" and t = 100
      and cs = "[Err (str ''warn''), Out (str ''x''), Err (str ''err'')]"]
    stderr_buffered_until_ready [where st = serverUp and h = 0 and e = envDies and code = "Some 1" and t = 100
      and cs = "[Err (str ''warn''), Out banner_running, Err (str ''late'')]"]
  by (simp add: Let_def serverUp_simps hasBanner_def banner_running_def banner_top_def str_def
      bannerOutput_def)

text \<open>
  C9 as stated fails: a process that has not become ready, with \<^verbatim>\<open>warn\<close>
  buffered from its \<^verbatim>\<open>stderr\<close>, is ended by a signal (its close event has the
  exit code \<^verbatim>\<open>null\<close>) while no \<^verbatim>\<open>killServer\<close> is under way.  The close listener
  emits nothing: the buffer is not dumped.
\<close>

theorem signal_exit_dumps_nothing:
  "\<not> isKilling serverUp \<and>
   \<not> isReady (children (feed_p2 0 [Err (str ''warn'')] serverUp) ! 0) \<and>
   buildLogs (children (feed_p2 0 [Err (str ''warn'')] serverUp) ! 0) = str ''warn'' \<and>
   trace (feed_p2 0 [Err (str ''warn'')] serverUp) = [] \<and>
   trace (closeEvent_p2 envDies 0 None 100 (feed_p2 0 [Err (str ''warn'')] serverUp)) = [] \<and>
   dumps (trace (closeEvent_p2 envDies 0 None 100 (feed_p2 0 [Err (str ''warn'')] serverUp))) = []"
  by (simp add: serverUp_simps onStderr_p2_def Let_def closeEvent_p2_def onClose_p2.simps)

subsection \<open>A crash after the crash-detection window\<close>

lemma current_startRustServer_at:
  "\<not> isKilling st \<Longrightarrow> length (children st) = n \<Longrightarrow> current (startRustServer e r st) n r"
  using current_startRustServer [of st e r] by simp

lemma supervise_one:
  "current st h r \<Longrightarrow> supervise e [(code, rt)] st =
     closeEvent e h code (startTime (children st ! h) + rt) st"
  by (simp add: current_def)

lemma supervise_p2_one:
  "current st h r \<Longrightarrow> supervise_p2 e [(code, rt)] st =
     closeEvent_p2 e h code (startTime (children st ! h) + rt) st"
  by (simp add: current_def)

lemma handleFileChange_starts:
  "compileError e = None \<Longrightarrow> bundleError e = None \<Longrightarrow> \<not> isKilling st \<Longrightarrow>
   current (handleFileChange e file st) (length (children st)) 0 \<and>
   spawnedWith (handleFileChange e file st) = spawnedWith st @ [0]"
  by (simp add: handleFileChange_def rebuild_def Let_def current_startRustServer_at)

lemma onChange_p2_starts:
  "\<not> isKilling st \<Longrightarrow>
   current (onChange_p2 e st) (length (children st)) 0 \<and>
   spawnedWith (onChange_p2 e st) = spawnedWith st @ [0]"
  by (simp add: onChange_p2_def current_startRustServer_p2_at killServer_keeps_flag)

lemma late_crash_A:
  assumes nk: "\<not> isKilling st" and c: "c \<noteq> 0" "c' \<noteq> 0"
    and late: "CRASH_DETECTION_WINDOW \<le> rt" and early: "rt' < CRASH_DETECTION_WINDOW"
    and ok: "compileError e = None" "bundleError e = None"
  shows "let st1 = supervise e [(Some c, rt)] (startRustServer e r st);
             st2 = supervise e [(Some c', rt')] (handleFileChange e path st1)
         in spawnedWith st1 = spawnedWith st @ [r] \<and> idle st1 \<and>
            spawnedWith st2 = spawnedWith st @ [r, 0, 1]"
proof -
  let ?s0 = "startRustServer e r st"
  let ?n = "length (children st)"
  let ?st1 = "supervise e [(Some c, rt)] ?s0"
  let ?s2 = "handleFileChange e path ?st1"
  let ?st2 = "supervise e [(Some c', rt')] ?s2"
  from nk have cur0: "current ?s0 ?n r" by (rule current_startRustServer)
  then have st1: "?st1 = closeEvent e ?n (Some c) (startTime (children ?s0 ! ?n) + rt) ?s0"
    by (rule supervise_one)
  from late have "\<not> (Some c \<noteq> Some 0 \<and> Some c \<noteq> None \<and> rt < CRASH_DETECTION_WINDOW \<and>
      r < MAX_RETRY_ATTEMPTS)" by simp
  with cur0 have a: "idle ?st1 \<and> spawnedWith ?st1 = spawnedWith ?s0"
    unfolding st1 by (rule closeEvent_stop)
  then have nk1: "\<not> isKilling ?st1" by (simp add: idle_def)
  with ok have cur2: "current ?s2 (length (children ?st1)) 0"
    and sw2: "spawnedWith ?s2 = spawnedWith ?st1 @ [0]"
    using handleFileChange_starts [of e ?st1 path] by simp_all
  from cur2 have st2: "?st2 =
      closeEvent e (length (children ?st1)) (Some c')
        (startTime (children ?s2 ! length (children ?st1)) + rt') ?s2"
    by (rule supervise_one)
  have "0 < MAX_RETRY_ATTEMPTS" by (simp add: MAX_RETRY_ATTEMPTS_def)
  with cur2 c(2) early have "spawnedWith ?st2 = spawnedWith ?s2 @ [Suc 0]"
    unfolding st2 using closeEvent_retry [of ?s2 "length (children ?st1)" 0 "Some c'" c' rt' e]
    by simp
  with a sw2 show ?thesis
    by (simp add: Let_def)
qed

lemma nth_slowTimer_update2b [simp]:
  "isReady (xs[h := (xs[h := y] ! h)\<lparr>slowTimer := b\<rparr>] ! i) = isReady (xs[h := y] ! i)"
  "buildLogs (xs[h := (xs[h := y] ! h)\<lparr>slowTimer := b\<rparr>] ! i) = buildLogs (xs[h := y] ! i)"
  "stdoutBuffer (xs[h := (xs[h := y] ! h)\<lparr>slowTimer := b\<rparr>] ! i) = stdoutBuffer (xs[h := y] ! i)"
  using nth_slowTimer_update [of "xs[h := y]" h b i]
  by simp_all

lemma length_children_feed_p2 [simp]:
  "length (children (feed_p2 h cs st)) = length (children st)"
proof -
  have "map (\<lambda>c. (running c, retryCount c)) (children (feed_p2 h cs st)) =
      map (\<lambda>c. (running c, retryCount c)) (children st)"
    using control_feed_p2 [of h cs st] by (simp add: control_def)
  then show ?thesis
    by (rule map_eq_imp_length_eq)
qed

lemma isReady_killServer_p2 [simp]:
  "isReady (children (killServer_p2 e st) ! i) = isReady (children st ! i)"
  by (cases "serverProcess st")
    (auto simp: killServer_p2_None killServer_p2_Some Let_def split: option.splits)

lemma closeEvent_p2_isReady:
  "i < length (children st) \<Longrightarrow>
   isReady (children (closeEvent_p2 e h code t st) ! i) = isReady (children st ! i)"
  by (simp add: closeEvent_p2_def onClose_p2.simps Let_def startRustServer_p2_state nth_append)

lemma late_crash_B:
  assumes nk: "\<not> isKilling st" and c: "c \<noteq> 0" "c' \<noteq> 0"
    and late: "CRASH_DETECTION_WINDOW_p2 \<le> rt" and early: "rt' < CRASH_DETECTION_WINDOW_p2"
  shows "let st1 = supervise_p2 e [(Some c, rt)]
                     (feed_p2 (length (children st)) cs (startRustServer_p2 e r st));
             st2 = supervise_p2 e [(Some c', rt')] (onChange_p2 e st1)
         in isReady (children st1 ! length (children st)) = becomesReady [] cs \<and>
            spawnedWith st1 = spawnedWith st @ [r] \<and> idle st1 \<and>
            spawnedWith st2 = spawnedWith st @ [r, 0, 1]"
proof -
  let ?n = "length (children st)"
  let ?s0 = "feed_p2 ?n cs (startRustServer_p2 e r st)"
  let ?st1 = "supervise_p2 e [(Some c, rt)] ?s0"
  let ?s2 = "onChange_p2 e ?st1"
  let ?st2 = "supervise_p2 e [(Some c', rt')] ?s2"
  from nk have "current (startRustServer_p2 e r st) ?n r" by (rule current_startRustServer_p2)
  then have cur0: "current ?s0 ?n r"
    using current_control [of ?s0 "startRustServer_p2 e r st" ?n r] by simp
  have sw0: "spawnedWith ?s0 = spawnedWith st @ [r]"
    using spawnedWith_control [of ?s0 "startRustServer_p2 e r st"] by simp
  from cur0 have st1: "?st1 = closeEvent_p2 e ?n (Some c) (startTime (children ?s0 ! ?n) + rt) ?s0"
    by (rule supervise_p2_one)
  from late have "\<not> (Some c \<noteq> Some 0 \<and> Some c \<noteq> None \<and> rt < CRASH_DETECTION_WINDOW_p2 \<and>
      r < MAX_RETRY_ATTEMPTS_p2)" by simp
  with cur0 have a: "idle ?st1 \<and> spawnedWith ?st1 = spawnedWith ?s0"
    unfolding st1 by (rule closeEvent_p2_stop)
  have "isReady (children ?st1 ! ?n) = isReady (children ?s0 ! ?n)"
    unfolding st1 by (rule closeEvent_p2_isReady) (simp add: startRustServer_p2_state)
  also have "\<dots> = becomesReady [] cs"
    using feed_p2_not_ready [of ?n "startRustServer_p2 e r st" cs]
    by (simp add: startRustServer_p2_state nth_append)
  finally have rdy: "isReady (children ?st1 ! ?n) = becomesReady [] cs" .
  from a have nk1: "\<not> isKilling ?st1" by (simp add: idle_def)
  then have cur2: "current ?s2 (length (children ?st1)) 0"
    and sw2: "spawnedWith ?s2 = spawnedWith ?st1 @ [0]"
    using onChange_p2_starts [of ?st1 e] by simp_all
  from cur2 have st2: "?st2 =
      closeEvent_p2 e (length (children ?st1)) (Some c')
        (startTime (children ?s2 ! length (children ?st1)) + rt') ?s2"
    by (rule supervise_p2_one)
  have "0 < MAX_RETRY_ATTEMPTS_p2" by (simp add: MAX_RETRY_ATTEMPTS_p2_def)
  with cur2 c(2) early have "spawnedWith ?st2 = spawnedWith ?s2 @ [Suc 0]"
    unfolding st2 using closeEvent_p2_retry [of ?s2 "length (children ?st1)" 0 "Some c'" c' rt' e]
    by simp
  with a sw0 sw2 rdy show ?thesis
    by (simp add: Let_def)
qed



text \<open>
  C5.  Start a server with any retry count \<^verbatim>\<open>r\<close>, let it produce any output (so
  it may have become ready), and let it crash with a non-zero code when the
  crash-detection window is over.  That crash starts nothing: the supervisor is
  idle, and the count \<^verbatim>\<open>r\<close> is not continued.  The next start, by a file
  change, is made with retry count 0, and when that process crashes inside the
  window the automatic retry is made with count 1.  So the spawns are
  \<^verbatim>\<open>r\<close>, 0, 1.
\<close>

theorem late_crash_counts_from_zero:
  "\<not> isKilling st \<Longrightarrow> c \<noteq> 0 \<Longrightarrow> c' \<noteq> 0 \<Longrightarrow>
   (CRASH_DETECTION_WINDOW \<le> rt \<and> rt' < CRASH_DETECTION_WINDOW \<and>
    compileError e = None \<and> bundleError e = None \<longrightarrow>
      (let st1 = supervise e [(Some c, rt)] (startRustServer e r st);
           st2 = supervise e [(Some c', rt')] (handleFileChange e path st1)
       in spawnedWith st1 = spawnedWith st @ [r] \<and> idle st1 \<and>
          spawnedWith st2 = spawnedWith st @ [r, 0, 1])) \<and>
   (CRASH_DETECTION_WINDOW_p2 \<le> rt \<and> rt' < CRASH_DETECTION_WINDOW_p2 \<longrightarrow>
      (let st1 = supervise_p2 e [(Some c, rt)]
                   (feed_p2 (length (children st)) cs (startRustServer_p2 e r st));
           st2 = supervise_p2 e [(Some c', rt')] (onChange_p2 e st1)
       in isReady (children st1 ! length (children st)) =
            becomesReady [] cs \<and>
          spawnedWith st1 = spawnedWith st @ [r] \<and> idle st1 \<and>
          spawnedWith st2 = spawnedWith st @ [r, 0, 1]))"
  using late_crash_A [of st c c' rt rt' e r path] late_crash_B [where st = st and c = c and c' = c' and rt = rt and rt' = rt' and e = e and r = r and cs = cs]
  by simp

theorem late_crash_counts_from_zero_witness:
  "\<not> isKilling initial \<and> CRASH_DETECTION_WINDOW \<le> 20000 \<and> 100 < CRASH_DETECTION_WINDOW \<and>
   CRASH_DETECTION_WINDOW_p2 \<le> 20000 \<and> 100 < CRASH_DETECTION_WINDOW_p2 \<and>
   compileError envDies = None \<and> bundleError envDies = None \<and>
   becomesReady [] [Out banner_running] \<and>
   spawnedWith (supervise envDies [(Some 1, 100)]
     (handleFileChange envDies (str ''app/app.js'')
        (supervise envDies [(Some 1, 20000)] (startRustServer envDies 2 initial)))) = [2, 0, 1] \<and>
   spawnedWith (supervise_p2 envDies [(Some 1, 100)]
     (onChange_p2 envDies
        (supervise_p2 envDies [(Some 1, 20000)]
           (feed_p2 0 [Out banner_running] (startRustServer_p2 envDies 2 initial))))) = [2, 0, 1]"
  using late_crash_counts_from_zero [where st = initial and c = 1 and c' = 1 and rt = 20000 and rt' = 100
      and e = envDies and r = 2 and path = "str ''app/app.js''" and cs = "[Out banner_running]"]
  by (simp add: Let_def initial_simps spawnedWith_def CRASH_DETECTION_WINDOW_def
      CRASH_DETECTION_WINDOW_p2_def hasBanner_def banner_running_def str_def)

end
